theory Spec2Isabelle
  imports Main "HOL-Library.AList" "HOL-Library.Sublist" "HOL-Library.Multiset"
begin

section \<open>Data model\<close>

text \<open>
  The records follow the TypeScript interfaces of \<^verbatim>\<open>models/Connection.ts\<close>,
  \<^verbatim>\<open>models/Queue.ts\<close> and \<^verbatim>\<open>providers/QueueMessagesPanel.ts\<close>. A \<^verbatim>\<open>Date\<close> is its
  timestamp, an optional field is an \<open>option\<close>, and a property bag
  (\<^verbatim>\<open>Record<string, unknown>\<close>) is an association list whose values are kept in their
  textual rendering, except for numbers.
\<close>

record Connection =
  conn_id :: string
  conn_name :: string
  connectionString :: string
  createdAt :: nat

record Queue =
  queue_name :: string
  connectionId :: string

text \<open>
  A \<^verbatim>\<open>QueueMessagesPanel\<close> knows the queue it shows and the connection string it reads it
  with (its constructor arguments).
\<close>

record QueueMessagesPanel =
  panel_queue :: Queue
  panel_connectionString :: string

datatype prop_value = PString string | PNumber nat

record MessageData =
  sequenceNumber :: string
  messageId :: string
  body :: string
  properties :: "(string \<times> prop_value) list"
  enqueuedTime :: string
  deliveryCount :: nat
  sourceQueue :: "Queue option"
  sourceConnectionString :: "string option"

text \<open>
  The message handed to \<^verbatim>\<open>sender.sendMessages\<close>, and the message handed back by
  \<^verbatim>\<open>receiver.receiveMessages\<close>. Of a received message the code reads only
  \<^verbatim>\<open>message.sequenceNumber?.toString()\<close>, so the field holds that decimal rendering and is
  \<open>None\<close> where the SDK leaves the sequence number undefined.
\<close>

record ServiceBusMessage =
  sb_body :: string
  sb_messageId :: string
  applicationProperties :: "(string \<times> prop_value) list"

record ServiceBusReceivedMessage =
  rm_sequenceNumber :: "string option"
  rm_messageId :: string
  rm_body :: string

text \<open>
  A thrown JavaScript value is either an \<^verbatim>\<open>Error\<close> with its message, or any other value
  with its \<^verbatim>\<open>String(...)\<close> rendering. \<open>errorMessage\<close> is the expression
  \<^verbatim>\<open>error instanceof Error ? error.message : String(error)\<close> of every catch block.
\<close>

datatype exn = JsError string | Thrown string

fun errorMessage :: "exn \<Rightarrow> string" where
  "errorMessage (JsError m) = m"
| "errorMessage (Thrown v) = v"

text \<open>
  A first argument of type \<^verbatim>\<open>MessageData | MessageData[]\<close>, and its normalisation
  \<^verbatim>\<open>Array.isArray(messageData) ? messageData : [messageData]\<close>.
\<close>

datatype message_arg = Single MessageData | Many "MessageData list"

fun toArray :: "message_arg \<Rightarrow> MessageData list" where
  "toArray (Single m) = [m]"
| "toArray (Many ms) = ms"

text \<open>JavaScript truthiness of an optional string: present and not empty.\<close>

fun truthy :: "string option \<Rightarrow> bool" where
  "truthy None = False"
| "truthy (Some v) = (v \<noteq> [])"

section \<open>The broker SDK and the extension state\<close>

text \<open>
  Every call into \<^verbatim>\<open>@azure/service-bus\<close> is recorded, with its arguments and its outcome
  (\<open>Inl\<close> the thrown value, \<open>Inr\<close> the result), in the order the code makes it. A client is
  identified by its connection string, a sender or receiver by connection string and
  queue name.
\<close>

datatype event =
    NewClient string "exn + unit"
  | CreateSender string string "exn + unit"
  | SendMessages string string ServiceBusMessage "exn + unit"
  | CloseSender string string "exn + unit"
  | CloseClient string "exn + unit"
  | CreateReceiver string string "exn + unit"
  | ReceiveMessages string string nat nat "exn + ServiceBusReceivedMessage list"
  | PeekMessages string string nat "exn + ServiceBusReceivedMessage list"
  | CompleteMessage string string ServiceBusReceivedMessage "exn + unit"
  | AbandonMessage string string ServiceBusReceivedMessage "exn + unit"
  | CloseReceiver string string "exn + unit"

text \<open>
  The SDK is not part of the repository: it is a parameter of the model. Each operation
  acts on a broker state \<open>'b\<close> that the extension cannot see, and either throws or returns.
\<close>

record 'b sdk =
  newClient :: "string \<Rightarrow> 'b \<Rightarrow> (exn + unit) \<times> 'b"
  createSender :: "string \<Rightarrow> string \<Rightarrow> 'b \<Rightarrow> (exn + unit) \<times> 'b"
  sendMessages :: "string \<Rightarrow> string \<Rightarrow> ServiceBusMessage \<Rightarrow> 'b \<Rightarrow> (exn + unit) \<times> 'b"
  closeSender :: "string \<Rightarrow> string \<Rightarrow> 'b \<Rightarrow> (exn + unit) \<times> 'b"
  closeClient :: "string \<Rightarrow> 'b \<Rightarrow> (exn + unit) \<times> 'b"
  createReceiver :: "string \<Rightarrow> string \<Rightarrow> 'b \<Rightarrow> (exn + unit) \<times> 'b"
  receiveMessages ::
    "string \<Rightarrow> string \<Rightarrow> nat \<Rightarrow> nat \<Rightarrow> 'b \<Rightarrow> (exn + ServiceBusReceivedMessage list) \<times> 'b"
  peekMessages ::
    "string \<Rightarrow> string \<Rightarrow> nat \<Rightarrow> 'b \<Rightarrow> (exn + ServiceBusReceivedMessage list) \<times> 'b"
  completeMessage :: "string \<Rightarrow> string \<Rightarrow> ServiceBusReceivedMessage \<Rightarrow> 'b \<Rightarrow> (exn + unit) \<times> 'b"
  abandonMessage :: "string \<Rightarrow> string \<Rightarrow> ServiceBusReceivedMessage \<Rightarrow> 'b \<Rightarrow> (exn + unit) \<times> 'b"
  closeReceiver :: "string \<Rightarrow> string \<Rightarrow> 'b \<Rightarrow> (exn + unit) \<times> 'b"

datatype notification =
    InformationMessage string
  | WarningMessage string
  | ErrorMessage string

text \<open>
  The state the extension's code reads and writes: the broker behind the SDK, the log of
  SDK calls, the notifications shown (\<^verbatim>\<open>vscode.window.show...Message\<close>), the host's secret
  store and key-value extension state, the provider's in-memory connection list, and
  the statics \<^verbatim>\<open>QueueMessagesPanel.pendingDragMessage\<close> and
  \<^verbatim>\<open>QueueMessagesPanel.currentPanel\<close>. Progress reporting, tree refreshes, console
  output and the HTML of the webview are presentation and are left out.
\<close>

record 'b extension_state =
  broker :: 'b
  calls :: "event list"
  notifications :: "notification list"
  secrets :: "string \<rightharpoonup> string"
  globalState :: "string \<rightharpoonup> Connection list"
  connections :: "Connection list"
  pendingDragMessage :: "message_arg option"
  currentPanel :: "QueueMessagesPanel option"

type_synonym ('a, 'b) io = "'b extension_state \<Rightarrow> (exn + 'a) \<times> 'b extension_state"

definition return_io :: "'a \<Rightarrow> ('a, 'b) io" where
  "return_io x = (\<lambda>s. (Inr x, s))"

definition throw_io :: "exn \<Rightarrow> ('a, 'b) io" where
  "throw_io e = (\<lambda>s. (Inl e, s))"

definition bind_io :: "('a, 'b) io \<Rightarrow> ('a \<Rightarrow> ('c, 'b) io) \<Rightarrow> ('c, 'b) io" where
  "bind_io m f = (\<lambda>s. case m s of (Inl e, s') \<Rightarrow> (Inl e, s') | (Inr x, s') \<Rightarrow> f x s')"

text \<open>
  \<^verbatim>\<open>try { m } finally { fin }\<close>: the finaliser runs whatever \<open>m\<close> did; when it throws, its
  exception replaces the outcome of \<open>m\<close>.
\<close>

definition finally_io :: "('a, 'b) io \<Rightarrow> (unit, 'b) io \<Rightarrow> ('a, 'b) io" where
  "finally_io m fin =
     (\<lambda>s. case m s of (r, s') \<Rightarrow>
        (case fin s' of (Inl e, s'') \<Rightarrow> (Inl e, s'') | (Inr _, s'') \<Rightarrow> (r, s'')))"

definition sdk_call :: "('b \<Rightarrow> (exn + 'a) \<times> 'b) \<Rightarrow> ((exn + 'a) \<Rightarrow> event) \<Rightarrow> ('a, 'b) io" where
  "sdk_call opn ev =
     (\<lambda>s. case opn (broker s) of (r, b') \<Rightarrow> (r, s\<lparr>broker := b', calls := calls s @ [ev r]\<rparr>))"

definition notify :: "notification \<Rightarrow> 'b extension_state \<Rightarrow> 'b extension_state" where
  "notify n s = s\<lparr>notifications := notifications s @ [n]\<rparr>"

section \<open>Sending a copy and deleting by scan\<close>

text \<open>\<^verbatim>\<open>ConnectionsProvider.sendMessageToQueue\<close>: the message sent, then the routine.\<close>

definition toServiceBusMessage :: "MessageData \<Rightarrow> ServiceBusMessage" where
  "toServiceBusMessage messageData =
     \<lparr>sb_body = body messageData,
      sb_messageId = messageId messageData,
      applicationProperties =
        AList.update ''originalSequenceNumber'' (PString (sequenceNumber messageData))
          (AList.update ''originalDeliveryCount'' (PNumber (deliveryCount messageData))
            (AList.update ''originalEnqueuedTime'' (PString (enqueuedTime messageData))
              (properties messageData)))\<rparr>"

definition closeSenderAndClient :: "'b sdk \<Rightarrow> string \<Rightarrow> string \<Rightarrow> (unit, 'b) io" where
  "closeSenderAndClient sdk queueName cs =
     bind_io (sdk_call (closeSender sdk cs queueName) (CloseSender cs queueName))
       (\<lambda>_. sdk_call (closeClient sdk cs) (CloseClient cs))"

definition sendMessageToQueue :: "'b sdk \<Rightarrow> string \<Rightarrow> string \<Rightarrow> MessageData \<Rightarrow> (unit, 'b) io" where
  "sendMessageToQueue sdk queueName cs messageData =
     bind_io (sdk_call (newClient sdk cs) (NewClient cs)) (\<lambda>_.
     bind_io (sdk_call (createSender sdk cs queueName) (CreateSender cs queueName)) (\<lambda>_.
       finally_io
         (sdk_call (sendMessages sdk cs queueName (toServiceBusMessage messageData))
            (SendMessages cs queueName (toServiceBusMessage messageData)))
         (closeSenderAndClient sdk queueName cs)))"

text \<open>
  \<^verbatim>\<open>ConnectionsProvider.deleteMessageFromQueue\<close>. The inner loop walks one received batch:
  a message whose sequence number is the target is completed and \<^verbatim>\<open>found\<close> is set, any
  other message is abandoned; the loop does not stop at the match.
\<close>

fun processReceived ::
  "'b sdk \<Rightarrow> string \<Rightarrow> string \<Rightarrow> string \<Rightarrow> ServiceBusReceivedMessage list \<Rightarrow> bool \<Rightarrow> (bool, 'b) io"
where
  "processReceived sdk queueName cs sn [] found = return_io found"
| "processReceived sdk queueName cs sn (message # rest) found =
     (if rm_sequenceNumber message = Some sn
      then bind_io (sdk_call (completeMessage sdk cs queueName message)
                      (CompleteMessage cs queueName message))
             (\<lambda>_. processReceived sdk queueName cs sn rest True)
      else bind_io (sdk_call (abandonMessage sdk cs queueName message)
                      (AbandonMessage cs queueName message))
             (\<lambda>_. processReceived sdk queueName cs sn rest found))"

definition maxAttempts :: nat where
  "maxAttempts = 5"

text \<open>
  The outer loop
  \<^verbatim>\<open>for (let attempt = 0; attempt < maxAttempts && !found; attempt++)\<close>, with its
  \<^verbatim>\<open>break\<close> on an empty batch. It returns \<^verbatim>\<open>found\<close>.
\<close>

function scanAttempts ::
  "'b sdk \<Rightarrow> string \<Rightarrow> string \<Rightarrow> string \<Rightarrow> nat \<Rightarrow> bool \<Rightarrow> (bool, 'b) io"
where
  "scanAttempts sdk queueName cs sn attempt found =
     (if attempt < maxAttempts \<and> \<not> found
      then bind_io (sdk_call (receiveMessages sdk cs queueName 100 5000)
                      (ReceiveMessages cs queueName 100 5000))
             (\<lambda>messages.
                bind_io (processReceived sdk queueName cs sn messages found)
                  (\<lambda>found'.
                     if \<not> found' \<and> messages = [] then return_io found'
                     else scanAttempts sdk queueName cs sn (attempt + 1) found'))
      else return_io found)"
  by pat_completeness auto
termination
  by (relation "measure (\<lambda>(sdk, queueName, cs, sn, attempt, found). maxAttempts - attempt)") auto

declare scanAttempts.simps [simp del]

definition openReceiver :: "'b sdk \<Rightarrow> string \<Rightarrow> string \<Rightarrow> (unit, 'b) io" where
  "openReceiver sdk queueName cs =
     bind_io (sdk_call (newClient sdk cs) (NewClient cs))
       (\<lambda>_. sdk_call (createReceiver sdk cs queueName) (CreateReceiver cs queueName))"

definition closeReceiverAndClient :: "'b sdk \<Rightarrow> string \<Rightarrow> string \<Rightarrow> (unit, 'b) io" where
  "closeReceiverAndClient sdk queueName cs =
     bind_io (sdk_call (closeReceiver sdk cs queueName) (CloseReceiver cs queueName))
       (\<lambda>_. sdk_call (closeClient sdk cs) (CloseClient cs))"

definition notFound :: "string \<Rightarrow> exn" where
  "notFound sn = JsError (''Message '' @ sn @ '' not found in queue'')"

definition scanAndCheck :: "'b sdk \<Rightarrow> string \<Rightarrow> string \<Rightarrow> string \<Rightarrow> (unit, 'b) io" where
  "scanAndCheck sdk queueName cs sn =
     bind_io (scanAttempts sdk queueName cs sn 0 False)
       (\<lambda>found. if \<not> found then throw_io (notFound sn) else return_io ())"

definition deleteMessageFromQueue :: "'b sdk \<Rightarrow> string \<Rightarrow> string \<Rightarrow> string \<Rightarrow> (unit, 'b) io" where
  "deleteMessageFromQueue sdk queueName cs sn =
     bind_io (openReceiver sdk queueName cs)
       (\<lambda>_. finally_io (scanAndCheck sdk queueName cs sn) (closeReceiverAndClient sdk queueName cs))"

section \<open>Bulk move and bulk delete\<close>

text \<open>
  The outcome partition \<^verbatim>\<open>results\<close> that both bulk operations build. In the source it is a
  local variable; the model returns it so that it can be observed.
\<close>

record BatchOutcome =
  successful :: "MessageData list"
  failed :: "(MessageData \<times> string) list"

definition emptyOutcome :: BatchOutcome where
  "emptyOutcome = \<lparr>successful = [], failed = []\<rparr>"

text \<open>
  The body of the \<^verbatim>\<open>try\<close> block of \<^verbatim>\<open>moveMessageToQueue\<close> for one message: send the copy,
  then delete the original when \<^verbatim>\<open>msg.sourceQueue && msg.sourceConnectionString\<close>.
\<close>

definition moveOne :: "'b sdk \<Rightarrow> Queue \<Rightarrow> string \<Rightarrow> MessageData \<Rightarrow> (unit, 'b) io" where
  "moveOne sdk targetQueue cs msg =
     bind_io (sendMessageToQueue sdk (queue_name targetQueue) cs msg) (\<lambda>_.
       case sourceQueue msg of
         None \<Rightarrow> return_io ()
       | Some sq \<Rightarrow>
           (case sourceConnectionString msg of
              None \<Rightarrow> return_io ()
            | Some scs \<Rightarrow>
                if scs = [] then return_io ()
                else deleteMessageFromQueue sdk (queue_name sq) scs (sequenceNumber msg)))"

text \<open>One turn of the \<^verbatim>\<open>for (const msg of messages)\<close> loop: the try body and its catch.\<close>

definition record_result ::
  "MessageData \<Rightarrow> (exn + unit) \<Rightarrow> BatchOutcome \<Rightarrow> BatchOutcome" where
  "record_result msg r results =
     (case r of
        Inr _ \<Rightarrow> results\<lparr>successful := successful results @ [msg]\<rparr>
      | Inl e \<Rightarrow> results\<lparr>failed := failed results @ [(msg, errorMessage e)]\<rparr>)"

fun moveLoop ::
  "'b sdk \<Rightarrow> Queue \<Rightarrow> string \<Rightarrow> MessageData list \<Rightarrow> BatchOutcome \<Rightarrow> 'b extension_state
     \<Rightarrow> BatchOutcome \<times> 'b extension_state"
where
  "moveLoop sdk targetQueue cs [] results s = (results, s)"
| "moveLoop sdk targetQueue cs (msg # rest) results s =
     (case moveOne sdk targetQueue cs msg s of
        (r, s') \<Rightarrow> moveLoop sdk targetQueue cs rest (record_result msg r results) s')"

text \<open>Decimal rendering of a number inside a template string, and \<^verbatim>\<open>Array.join\<close>.\<close>

function show_nat :: "nat \<Rightarrow> string" where
  "show_nat n =
     (if n < 10 then [char_of (48 + n)]
      else show_nat (n div 10) @ [char_of (48 + n mod 10)])"
  by pat_completeness auto
termination
  by (relation "measure id") auto

declare show_nat.simps [simp del]

fun join :: "string \<Rightarrow> string list \<Rightarrow> string" where
  "join sep [] = []"
| "join sep [x] = x"
| "join sep (x # y # zs) = x @ sep @ join sep (y # zs)"

definition moveSummary :: "string \<Rightarrow> nat \<Rightarrow> BatchOutcome \<Rightarrow> notification" where
  "moveSummary target messageCount results =
     (if failed results = [] then
        InformationMessage
          (if messageCount > 1
           then ''Successfully moved '' @ show_nat messageCount @ '' messages to '' @ target
           else ''Message moved to '' @ target)
      else if successful results = [] then
        ErrorMessage
          (''Failed to move '' @ show_nat messageCount @ '' message(s) to '' @ target
             @ ''. IDs: '' @ join '', '' (map (\<lambda>f. messageId (fst f)) (failed results)))
      else
        WarningMessage
          (''Moved '' @ show_nat (length (successful results)) @ '' of ''
             @ show_nat messageCount @ '' messages to '' @ target @ ''. ''
             @ ''Failed: ''
             @ join '', '' (map (\<lambda>f. messageId (fst f) @ '' ('' @ snd f @ '')'') (failed results))))"

definition secretKey :: "string \<Rightarrow> string" where
  "secretKey connId = ''connection.'' @ connId"

definition getConnectionString :: "'b extension_state \<Rightarrow> string \<Rightarrow> string option" where
  "getConnectionString s connId = secrets s (secretKey connId)"

text \<open>
  \<^verbatim>\<open>ConnectionsProvider.moveMessageToQueue\<close>. Without a connection string for the target
  the operation shows an error and returns before any outcome exists (\<open>None\<close>).
\<close>

definition moveMessageToQueue ::
  "'b sdk \<Rightarrow> message_arg \<Rightarrow> Queue \<Rightarrow> 'b extension_state
     \<Rightarrow> BatchOutcome option \<times> 'b extension_state"
where
  "moveMessageToQueue sdk messageData targetQueue s =
     (case getConnectionString s (connectionId targetQueue) of
        None \<Rightarrow> (None, notify (ErrorMessage ''Connection string not found for target queue'') s)
      | Some cs \<Rightarrow>
          if cs = [] then
            (None, notify (ErrorMessage ''Connection string not found for target queue'') s)
          else
            (case moveLoop sdk targetQueue cs (toArray messageData) emptyOutcome s of
               (results, s') \<Rightarrow>
                 (Some results,
                  notify (moveSummary (queue_name targetQueue)
                            (length (toArray messageData)) results) s')))"

text \<open>
  \<^verbatim>\<open>ConnectionsProvider.deleteMessages\<close>. The try body for one message throws when the
  message has no connection string of its own and otherwise scans the queue named by the
  \<^emph>\<open>first\<close> message of the batch.
\<close>

definition deleteOne :: "'b sdk \<Rightarrow> string \<Rightarrow> MessageData \<Rightarrow> (unit, 'b) io" where
  "deleteOne sdk queueName msg =
     (case sourceConnectionString msg of
        None \<Rightarrow> throw_io (JsError ''Connection string missing'')
      | Some scs \<Rightarrow>
          if scs = [] then throw_io (JsError ''Connection string missing'')
          else deleteMessageFromQueue sdk queueName scs (sequenceNumber msg))"

fun deleteLoop ::
  "'b sdk \<Rightarrow> string \<Rightarrow> MessageData list \<Rightarrow> BatchOutcome \<Rightarrow> 'b extension_state
     \<Rightarrow> BatchOutcome \<times> 'b extension_state"
where
  "deleteLoop sdk queueName [] results s = (results, s)"
| "deleteLoop sdk queueName (msg # rest) results s =
     (case deleteOne sdk queueName msg s of
        (r, s') \<Rightarrow> deleteLoop sdk queueName rest (record_result msg r results) s')"

definition deleteSummary :: "string \<Rightarrow> nat \<Rightarrow> BatchOutcome \<Rightarrow> notification" where
  "deleteSummary queueName messageCount results =
     (if failed results = [] then
        InformationMessage
          (if messageCount > 1
           then ''Successfully deleted '' @ show_nat messageCount @ '' messages from '' @ queueName
           else ''Message deleted from '' @ queueName)
      else if successful results = [] then
        ErrorMessage
          (''Failed to delete '' @ show_nat messageCount @ '' message(s) from '' @ queueName
             @ ''. IDs: '' @ join '', '' (map (\<lambda>f. messageId (fst f)) (failed results)))
      else
        WarningMessage
          (''Deleted '' @ show_nat (length (successful results)) @ '' of ''
             @ show_nat messageCount @ '' messages from '' @ queueName @ ''. ''
             @ ''Failed: ''
             @ join '', '' (map (\<lambda>f. messageId (fst f) @ '' ('' @ snd f @ '')'') (failed results))))"

text \<open>
  Reading a property of \<^verbatim>\<open>undefined\<close> throws a \<^verbatim>\<open>TypeError\<close>; this is what
  \<^verbatim>\<open>messages[0].sourceQueue\<close> does on an empty batch.
\<close>

definition undefinedProperty :: "string \<Rightarrow> exn" where
  "undefinedProperty p =
     JsError (''Cannot read properties of undefined (reading '' @ [CHR 0x27] @ p @ [CHR 0x27] @ '')'')"

text \<open>
  \<^verbatim>\<open>QueueMessagesPanel._peekMessages\<close> and \<^verbatim>\<open>refreshView\<close>. The view is rebuilt from a
  peek of up to 50 messages of the panel's queue; \<^verbatim>\<open>_getHtmlForWebview\<close> catches whatever
  the peek throws and renders an error page, so a refresh never throws.
\<close>

definition panelPeekMessages ::
  "'b sdk \<Rightarrow> QueueMessagesPanel \<Rightarrow> (ServiceBusReceivedMessage list, 'b) io" where
  "panelPeekMessages sdk panel =
     bind_io (openReceiver sdk (queue_name (panel_queue panel)) (panel_connectionString panel))
       (\<lambda>_. finally_io
              (sdk_call (peekMessages sdk (panel_connectionString panel)
                           (queue_name (panel_queue panel)) 50)
                 (PeekMessages (panel_connectionString panel) (queue_name (panel_queue panel)) 50))
              (closeReceiverAndClient sdk (queue_name (panel_queue panel))
                 (panel_connectionString panel)))"

definition refreshView ::
  "'b sdk \<Rightarrow> QueueMessagesPanel \<Rightarrow> 'b extension_state \<Rightarrow> 'b extension_state" where
  "refreshView sdk panel s = snd (panelPeekMessages sdk panel s)"

text \<open>
  What \<^verbatim>\<open>deleteMessages\<close> does after its loop: the summary notification, then a refresh
  of the open panel when at least one message was deleted.
\<close>

definition afterDelete ::
  "'b sdk \<Rightarrow> string \<Rightarrow> nat \<Rightarrow> BatchOutcome \<Rightarrow> 'b extension_state \<Rightarrow> 'b extension_state"
where
  "afterDelete sdk queueName messageCount results s =
     (case currentPanel s of
        None \<Rightarrow> notify (deleteSummary queueName messageCount results) s
      | Some panel \<Rightarrow>
          if successful results \<noteq> []
          then refreshView sdk panel (notify (deleteSummary queueName messageCount results) s)
          else notify (deleteSummary queueName messageCount results) s)"

definition deleteMessages ::
  "'b sdk \<Rightarrow> message_arg \<Rightarrow> 'b extension_state
     \<Rightarrow> (exn + BatchOutcome option) \<times> 'b extension_state"
where
  "deleteMessages sdk messageData s =
     (case toArray messageData of
        [] \<Rightarrow> (Inl (undefinedProperty ''sourceQueue''), s)
      | firstMessage # _ \<Rightarrow>
          (case sourceQueue firstMessage of
             None \<Rightarrow>
               (Inr None,
                notify (ErrorMessage ''Cannot delete message: source queue information missing'') s)
           | Some sq \<Rightarrow>
               if \<not> truthy (sourceConnectionString firstMessage) then
                 (Inr None,
                  notify (ErrorMessage ''Cannot delete message: source queue information missing'') s)
               else
                 (case deleteLoop sdk (queue_name sq) (toArray messageData) emptyOutcome s of
                    (results, s') \<Rightarrow>
                      (Inr (Some results),
                       afterDelete sdk (queue_name sq) (length (toArray messageData))
                         results s'))))"

text \<open>
  The state in which item \<open>k\<close> of a batch starts: the state the loop has reached after the
  first \<open>k\<close> items.
\<close>

definition moveStateBefore ::
  "'b sdk \<Rightarrow> Queue \<Rightarrow> string \<Rightarrow> MessageData list \<Rightarrow> nat \<Rightarrow> 'b extension_state \<Rightarrow> 'b extension_state"
where
  "moveStateBefore sdk targetQueue cs msgs k s =
     snd (moveLoop sdk targetQueue cs (take k msgs) emptyOutcome s)"

definition deleteStateBefore ::
  "'b sdk \<Rightarrow> string \<Rightarrow> MessageData list \<Rightarrow> nat \<Rightarrow> 'b extension_state \<Rightarrow> 'b extension_state"
where
  "deleteStateBefore sdk queueName msgs k s =
     snd (deleteLoop sdk queueName (take k msgs) emptyOutcome s)"

section \<open>Drag and drop\<close>

text \<open>
  \<^verbatim>\<open>ConnectionsProvider.processMessageMove\<close>, the move behind a drop on a queue of the
  tree. It sends each message to the target and stops at the first send that throws;
  the catch block turns the exception into an error notification.
\<close>

fun sendAll :: "'b sdk \<Rightarrow> string \<Rightarrow> string \<Rightarrow> MessageData list \<Rightarrow> (unit, 'b) io" where
  "sendAll sdk queueName cs [] = return_io ()"
| "sendAll sdk queueName cs (msg # rest) =
     bind_io (sendMessageToQueue sdk queueName cs msg) (\<lambda>_. sendAll sdk queueName cs rest)"

definition processMessageMove ::
  "'b sdk \<Rightarrow> Queue \<Rightarrow> message_arg \<Rightarrow> 'b extension_state \<Rightarrow> 'b extension_state"
where
  "processMessageMove sdk target messageData s =
     (case getConnectionString s (connectionId target) of
        None \<Rightarrow> notify (ErrorMessage ''Connection string not found for target queue'') s
      | Some cs \<Rightarrow>
          if cs = [] then
            notify (ErrorMessage ''Connection string not found for target queue'') s
          else
            (case sendAll sdk (queue_name target) cs (toArray messageData) s of
               (Inr _, s') \<Rightarrow>
                 notify (InformationMessage
                    (if length (toArray messageData) > 1
                     then show_nat (length (toArray messageData)) @ '' messages moved to ''
                            @ queue_name target
                     else ''Message moved to '' @ queue_name target)) s'
             | (Inl e, s') \<Rightarrow>
                 notify (ErrorMessage (''Failed to move message(s): '' @ errorMessage e)) s'))"

text \<open>
  \<^verbatim>\<open>ConnectionsProvider.handleDrop\<close>. The drag payload of the host is a record of the two
  MIME entries the code reads; \<^verbatim>\<open>decodeURIComponent\<close> and \<^verbatim>\<open>JSON.parse\<close> are library
  functions and are parameters (\<open>None\<close> where they throw).
\<close>

record DataTransfer =
  uri_list :: "string option"
  text_plain :: "string option"

definition handleDrop ::
  "'b sdk \<Rightarrow> (string \<Rightarrow> string option) \<Rightarrow> (string \<Rightarrow> message_arg option)
     \<Rightarrow> Queue option \<Rightarrow> DataTransfer \<Rightarrow> 'b extension_state \<Rightarrow> 'b extension_state"
where
  "handleDrop sdk decodeURIComponent jsonParse target dataTransfer s =
     (case target of
        None \<Rightarrow> s
      | Some t \<Rightarrow>
          (case pendingDragMessage s of
             Some messages \<Rightarrow> processMessageMove sdk t messages (s\<lparr>pendingDragMessage := None\<rparr>)
           | None \<Rightarrow>
               (let fromText =
                      (case text_plain dataTransfer of
                         None \<Rightarrow> s
                       | Some txt \<Rightarrow>
                           (case jsonParse txt of
                              None \<Rightarrow> s
                            | Some messages \<Rightarrow> processMessageMove sdk t messages s))
                in case uri_list dataTransfer of
                     None \<Rightarrow> fromText
                   | Some uri \<Rightarrow>
                       if prefix ''busdriver-message:'' uri then
                         (case decodeURIComponent (drop (length ''busdriver-message:'') uri) of
                            None \<Rightarrow> fromText
                          | Some jsonData \<Rightarrow>
                              (case jsonParse jsonData of
                                 None \<Rightarrow> fromText
                               | Some messages \<Rightarrow> processMessageMove sdk t messages s))
                       else fromText)))"

section \<open>The webview message handler\<close>

text \<open>
  The handler registered in the constructor of \<^verbatim>\<open>QueueMessagesPanel\<close>. A panel knows its
  queue and its connection string. The handler either stores the drag payload or
  forwards a command with its argument. The cases \<^verbatim>\<open>refresh\<close> and \<^verbatim>\<open>removeMessage\<close> start
  \<^verbatim>\<open>_update\<close> without awaiting it and return: the re-rendering is a later run of its own
  (\<open>refreshView\<close> below) and no part of the handler's step.
\<close>

datatype webview_message =
    Refresh
  | RemoveMessage
  | StartDrag message_arg
  | MoveToQueue message_arg
  | DeleteMessages message_arg
  | OtherCommand string

datatype command =
    MoveMessageToQueueCommand "MessageData list"
  | DeleteMessagesCommand "MessageData list"

definition attachSource :: "QueueMessagesPanel \<Rightarrow> MessageData \<Rightarrow> MessageData" where
  "attachSource panel msg =
     msg\<lparr>sourceQueue := Some (panel_queue panel),
         sourceConnectionString := Some (panel_connectionString panel)\<rparr>"

fun onDidReceiveMessage ::
  "QueueMessagesPanel \<Rightarrow> webview_message \<Rightarrow> 'b extension_state
     \<Rightarrow> command option \<times> 'b extension_state"
where
  "onDidReceiveMessage panel Refresh s = (None, s)"
| "onDidReceiveMessage panel RemoveMessage s = (None, s)"
| "onDidReceiveMessage panel (StartDrag data) s = (None, s\<lparr>pendingDragMessage := Some data\<rparr>)"
| "onDidReceiveMessage panel (MoveToQueue data) s =
     (Some (MoveMessageToQueueCommand (map (attachSource panel) (toArray data))), s)"
| "onDidReceiveMessage panel (DeleteMessages data) s =
     (Some (DeleteMessagesCommand (map (attachSource panel) (toArray data))), s)"
| "onDidReceiveMessage panel (OtherCommand c) s = (None, s)"

section \<open>Connections and their two stores\<close>

text \<open>
  \<^verbatim>\<open>saveConnections\<close>: every in-memory connection string goes to the secret store under
  \<^verbatim>\<open>connection.<id>\<close>, then the metadata goes to the extension state under
  \<^verbatim>\<open>connections\<close> with the string blanked.
\<close>

definition storeSecrets :: "Connection list \<Rightarrow> (string \<rightharpoonup> string) \<Rightarrow> (string \<rightharpoonup> string)" where
  "storeSecrets conns m =
     foldl (\<lambda>m conn. m(secretKey (conn_id conn) \<mapsto> connectionString conn)) m conns"

definition toStored :: "Connection \<Rightarrow> Connection" where
  "toStored c =
     \<lparr>conn_id = conn_id c, conn_name = conn_name c, connectionString = [],
      createdAt = createdAt c\<rparr>"

definition saveConnections :: "'b extension_state \<Rightarrow> 'b extension_state" where
  "saveConnections s =
     s\<lparr>secrets := storeSecrets (connections s) (secrets s),
       globalState := (globalState s)(''connections'' \<mapsto> map toStored (connections s))\<rparr>"

text \<open>
  \<^verbatim>\<open>loadConnections\<close>, called by the constructor:
  \<^verbatim>\<open>globalState.get('connections', [])\<close> with the dates revived.
\<close>

definition storedConnections :: "'b extension_state \<Rightarrow> Connection list" where
  "storedConnections s = (case globalState s ''connections'' of None \<Rightarrow> [] | Some stored \<Rightarrow> stored)"

definition loadConnections :: "'b extension_state \<Rightarrow> 'b extension_state" where
  "loadConnections s =
     s\<lparr>connections := map (\<lambda>c. c\<lparr>createdAt := createdAt c\<rparr>) (storedConnections s)\<rparr>"

text \<open>
  \<^verbatim>\<open>addConnection\<close>. What the two input boxes return, the generated identifier and the
  clock are inputs of the operation. An input box returns \<open>None\<close> when it is dismissed;
  the guards \<^verbatim>\<open>if (!name)\<close> and \<^verbatim>\<open>if (!connectionString)\<close> also stop on an empty string.
  The \<^verbatim>\<open>validateInput\<close> callbacks run inside the host's input box and only restrict
  which strings it returns; they are not part of the operation.
  \<^verbatim>\<open>String.prototype.trim\<close> is a library function over the white space and line
  terminators of Unicode; it is the parameter \<open>trim\<close>.
\<close>

record AddInput =
  name_input :: "string option"
  connectionString_input :: "string option"
  generated_id :: string
  now :: nat

definition quoted :: "string \<Rightarrow> string" where
  "quoted v = [CHR 0x27] @ v @ [CHR 0x27]"

definition addConnection ::
  "(string \<Rightarrow> string) \<Rightarrow> AddInput \<Rightarrow> 'b extension_state \<Rightarrow> 'b extension_state" where
  "addConnection trim inp s =
     (if \<not> truthy (name_input inp) then s
      else if \<not> truthy (connectionString_input inp) then s
      else
        let connection =
              \<lparr>conn_id = generated_id inp,
               conn_name = trim (the (name_input inp)),
               connectionString = trim (the (connectionString_input inp)),
               createdAt = now inp\<rparr>
        in notify (InformationMessage
                     (''Connection '' @ quoted (conn_name connection) @ '' added successfully''))
             (saveConnections (s\<lparr>connections := connections s @ [connection]\<rparr>)))"

text \<open>
  \<^verbatim>\<open>deleteConnection\<close>, with the button the confirmation dialog returned.
\<close>

definition deleteConnection ::
  "Connection \<Rightarrow> string option \<Rightarrow> 'b extension_state \<Rightarrow> 'b extension_state" where
  "deleteConnection item confirm s =
     (if confirm = Some ''Delete'' then
        notify (InformationMessage (''Connection '' @ quoted (conn_name item) @ '' deleted''))
          (saveConnections
             (s\<lparr>connections := filter (\<lambda>c. conn_id c \<noteq> conn_id item) (connections s)\<rparr>))
      else s)"

text \<open>
  The operations a user can run on the connection list, a restart of the extension
  (the constructor reloads the list from the extension state), and their runs.
\<close>

datatype provider_op =
    AddConnection AddInput
  | DeleteConnection Connection "string option"
  | Restart

fun applyOp ::
  "(string \<Rightarrow> string) \<Rightarrow> provider_op \<Rightarrow> 'b extension_state \<Rightarrow> 'b extension_state" where
  "applyOp trim (AddConnection inp) s = addConnection trim inp s"
| "applyOp trim (DeleteConnection item confirm) s = deleteConnection item confirm s"
| "applyOp trim Restart s = loadConnections s"

definition runOps ::
  "(string \<Rightarrow> string) \<Rightarrow> provider_op list \<Rightarrow> 'b extension_state \<Rightarrow> 'b extension_state" where
  "runOps trim ops s = foldl (\<lambda>s opn. applyOp trim opn s) s ops"

text \<open>The state of a fresh installation, after the constructor has run.\<close>

definition freshState :: "'b \<Rightarrow> 'b extension_state" where
  "freshState b =
     loadConnections
       \<lparr>broker = b, calls = [], notifications = [], secrets = Map.empty,
        globalState = Map.empty, connections = [], pendingDragMessage = None,
        currentPanel = None\<rparr>"

section \<open>Observing a run\<close>

text \<open>
  Both bulk loops are the same loop around their own try body. The properties of the loop
  are proved once, for any body.
\<close>

fun batchLoop ::
  "(MessageData \<Rightarrow> (unit, 'b) io) \<Rightarrow> MessageData list \<Rightarrow> BatchOutcome \<Rightarrow> 'b extension_state
     \<Rightarrow> BatchOutcome \<times> 'b extension_state"
where
  "batchLoop step [] results s = (results, s)"
| "batchLoop step (msg # rest) results s =
     (case step msg s of (r, s') \<Rightarrow> batchLoop step rest (record_result msg r results) s')"

text \<open>The state in which item \<open>k\<close> starts, for any body.\<close>

definition stateBefore ::
  "(MessageData \<Rightarrow> (unit, 'b) io) \<Rightarrow> MessageData list \<Rightarrow> nat \<Rightarrow> 'b extension_state \<Rightarrow> 'b extension_state"
where
  "stateBefore step msgs k s = snd (batchLoop step (take k msgs) emptyOutcome s)"

text \<open>
  Kinds of SDK calls. A deletion attempt on a queue is anything done through a receiver;
  a sender-side call belongs to the copy. \<open>targets_queue\<close> holds of the receiver calls on
  one queue and of the client calls, which name no queue.
\<close>

fun is_delete_event :: "event \<Rightarrow> bool" where
  "is_delete_event (CreateReceiver cs q r) = True"
| "is_delete_event (ReceiveMessages cs q n w r) = True"
| "is_delete_event (CompleteMessage cs q m r) = True"
| "is_delete_event (AbandonMessage cs q m r) = True"
| "is_delete_event (CloseReceiver cs q r) = True"
| "is_delete_event e = False"

fun on_sender :: "string \<Rightarrow> string \<Rightarrow> event \<Rightarrow> bool" where
  "on_sender queueName cs (NewClient c r) = (c = cs)"
| "on_sender queueName cs (CreateSender c q r) = (c = cs \<and> q = queueName)"
| "on_sender queueName cs (SendMessages c q m r) = (c = cs \<and> q = queueName)"
| "on_sender queueName cs (CloseSender c q r) = (c = cs \<and> q = queueName)"
| "on_sender queueName cs (CloseClient c r) = (c = cs)"
| "on_sender queueName cs e = False"

fun on_receiver :: "string \<Rightarrow> string \<Rightarrow> event \<Rightarrow> bool" where
  "on_receiver queueName cs (NewClient c r) = (c = cs)"
| "on_receiver queueName cs (CreateReceiver c q r) = (c = cs \<and> q = queueName)"
| "on_receiver queueName cs (ReceiveMessages c q n w r) = (c = cs \<and> q = queueName)"
| "on_receiver queueName cs (CompleteMessage c q m r) = (c = cs \<and> q = queueName)"
| "on_receiver queueName cs (AbandonMessage c q m r) = (c = cs \<and> q = queueName)"
| "on_receiver queueName cs (CloseReceiver c q r) = (c = cs \<and> q = queueName)"
| "on_receiver queueName cs (CloseClient c r) = (c = cs)"
| "on_receiver queueName cs e = False"

fun targets_queue :: "string \<Rightarrow> event \<Rightarrow> bool" where
  "targets_queue queueName (NewClient c r) = True"
| "targets_queue queueName (CloseClient c r) = True"
| "targets_queue queueName (CreateReceiver c q r) = (q = queueName)"
| "targets_queue queueName (ReceiveMessages c q n w r) = (q = queueName)"
| "targets_queue queueName (CompleteMessage c q m r) = (q = queueName)"
| "targets_queue queueName (AbandonMessage c q m r) = (q = queueName)"
| "targets_queue queueName (CloseReceiver c q r) = (q = queueName)"
| "targets_queue queueName e = False"

text \<open>
  \<open>opens_receiver\<close> holds of a list of calls that starts the way a deletion starts: a new
  client for the connection string and, unless that throws, a receiver on the queue.
\<close>

fun opens_receiver :: "string \<Rightarrow> string \<Rightarrow> event list \<Rightarrow> bool" where
  "opens_receiver queueName cs (NewClient c (Inr u) # CreateReceiver c' q r # seg) =
     (c = cs \<and> c' = cs \<and> q = queueName)"
| "opens_receiver queueName cs [NewClient c (Inl e)] = (c = cs)"
| "opens_receiver queueName cs seg = False"

text \<open>
  A computation whose outcome, broker and calls depend on the broker and the calls of the
  state it starts in, and on nothing else of that state.
\<close>

definition reads_broker :: "('a, 'b) io \<Rightarrow> bool" where
  "reads_broker m = (\<forall>s t. broker s = broker t \<and> calls s = calls t \<longrightarrow>
      fst (m s) = fst (m t) \<and> broker (snd (m s)) = broker (snd (m t)) \<and>
      calls (snd (m s)) = calls (snd (m t)))"

text \<open>
  The calls of a scan: the receive attempts with what they request
  (\<^verbatim>\<open>maxMessageCount\<close>, \<^verbatim>\<open>maxWaitTimeInMs\<close>), and the events after which a scan makes no
  further attempt, namely a \<^verbatim>\<open>completeMessage\<close> call and a receive that returned no
  message. \<open>no_receive_after_stop\<close> says that no receive follows the first such event.
\<close>

fun is_receive :: "event \<Rightarrow> bool" where
  "is_receive (ReceiveMessages cs q n w r) = True"
| "is_receive e = False"

fun is_scan_event :: "event \<Rightarrow> bool" where
  "is_scan_event (ReceiveMessages cs q n w r) = True"
| "is_scan_event (CompleteMessage cs q m r) = True"
| "is_scan_event (AbandonMessage cs q m r) = True"
| "is_scan_event e = False"

fun is_stop :: "event \<Rightarrow> bool" where
  "is_stop (CompleteMessage cs q m r) = True"
| "is_stop (ReceiveMessages cs q n w (Inr [])) = True"
| "is_stop e = False"

fun request_of :: "event \<Rightarrow> (nat \<times> nat) list" where
  "request_of (ReceiveMessages cs q n w r) = [(n, w)]"
| "request_of e = []"

definition receive_requests :: "event list \<Rightarrow> (nat \<times> nat) list" where
  "receive_requests seg = concat (map request_of seg)"

fun no_receive_after_stop :: "event list \<Rightarrow> bool" where
  "no_receive_after_stop [] = True"
| "no_receive_after_stop (e # es) =
     (if is_stop e then filter is_receive es = [] else no_receive_after_stop es)"

definition scan_bound :: "nat \<Rightarrow> event list \<Rightarrow> bool" where
  "scan_bound n seg =
     (no_receive_after_stop seg \<and> length (receive_requests seg) \<le> n \<and>
      set (receive_requests seg) \<subseteq> {(100, 5000)})"

text \<open>
  What happened to the messages of a run: those a receive returned, those
  \<^verbatim>\<open>completeMessage\<close> was called on, those an \<^verbatim>\<open>abandonMessage\<close> call returned to the
  queue, and whether a \<^verbatim>\<open>completeMessage\<close> or \<^verbatim>\<open>abandonMessage\<close> call threw.
  \<open>other_than sn\<close> keeps the messages whose sequence number is not \<open>sn\<close>.
\<close>

fun received_of :: "event \<Rightarrow> ServiceBusReceivedMessage list" where
  "received_of (ReceiveMessages cs q n w (Inr ms)) = ms"
| "received_of e = []"

fun completed_of :: "event \<Rightarrow> ServiceBusReceivedMessage list" where
  "completed_of (CompleteMessage cs q m r) = [m]"
| "completed_of e = []"

fun abandoned_of :: "event \<Rightarrow> ServiceBusReceivedMessage list" where
  "abandoned_of (AbandonMessage cs q m (Inr u)) = [m]"
| "abandoned_of e = []"


definition received :: "event list \<Rightarrow> ServiceBusReceivedMessage list" where
  "received seg = concat (map received_of seg)"

definition completed :: "event list \<Rightarrow> ServiceBusReceivedMessage list" where
  "completed seg = concat (map completed_of seg)"

definition abandoned :: "event list \<Rightarrow> ServiceBusReceivedMessage list" where
  "abandoned seg = concat (map abandoned_of seg)"

definition other_than :: "string \<Rightarrow> ServiceBusReceivedMessage list \<Rightarrow> ServiceBusReceivedMessage list" where
  "other_than sn ms = filter (\<lambda>m. rm_sequenceNumber m \<noteq> Some sn) ms"


text \<open>
  A routine \<open>emits P\<close> when every run of it only appends to the call log, and the
  appended calls together with the outcome satisfy \<open>P\<close>.
\<close>

definition emits :: "('a, 'b) io \<Rightarrow> ((exn + 'a) \<Rightarrow> event list \<Rightarrow> bool) \<Rightarrow> bool" where
  "emits m P = (\<forall>s r s'. m s = (r, s') \<longrightarrow> (\<exists>seg. calls s' = calls s @ seg \<and> P r seg))"

section \<open>A broker for concrete runs\<close>

text \<open>
  A small in-memory broker: one queue of messages and the list of messages sent. Every
  call succeeds; a receive or a peek returns the head of the queue without locking;
  completing a message removes it. The panel of the queue \<^verbatim>\<open>orders\<close> is open. Two variants fail on purpose: one loses the lock at every
  \<^verbatim>\<open>completeMessage\<close>, one refuses to send the message \<^verbatim>\<open>id-7\<close>.
\<close>

record mock_broker =
  mb_queue :: "ServiceBusReceivedMessage list"
  mb_sent :: "(string \<times> ServiceBusMessage) list"

definition mock_sdk :: "mock_broker sdk" where
  "mock_sdk =
     \<lparr>newClient = (\<lambda>cs b. (Inr (), b)),
      createSender = (\<lambda>cs q b. (Inr (), b)),
      sendMessages = (\<lambda>cs q m b. (Inr (), b\<lparr>mb_sent := mb_sent b @ [(q, m)]\<rparr>)),
      closeSender = (\<lambda>cs q b. (Inr (), b)),
      closeClient = (\<lambda>cs b. (Inr (), b)),
      createReceiver = (\<lambda>cs q b. (Inr (), b)),
      receiveMessages = (\<lambda>cs q n w b. (Inr (take n (mb_queue b)), b)),
      peekMessages = (\<lambda>cs q n b. (Inr (take n (mb_queue b)), b)),
      completeMessage = (\<lambda>cs q m b. (Inr (), b\<lparr>mb_queue := remove1 m (mb_queue b)\<rparr>)),
      abandonMessage = (\<lambda>cs q m b. (Inr (), b)),
      closeReceiver = (\<lambda>cs q b. (Inr (), b))\<rparr>"


definition picky_sdk :: "mock_broker sdk" where
  "picky_sdk =
     mock_sdk\<lparr>sendMessages :=
       (\<lambda>cs q m b. if sb_messageId m = ''id-7'' then (Inl (JsError ''quota exceeded''), b)
                    else (Inr (), b\<lparr>mb_sent := mb_sent b @ [(q, m)]\<rparr>))\<rparr>"

text \<open>Messages, queues, a panel on the queue \<^verbatim>\<open>orders\<close>, and states to run from.\<close>

definition queued :: "string \<Rightarrow> ServiceBusReceivedMessage" where
  "queued sn = \<lparr>rm_sequenceNumber = Some sn, rm_messageId = ''id-'' @ sn, rm_body = ''{}''\<rparr>"

definition snapshot :: "string \<Rightarrow> MessageData" where
  "snapshot sn =
     \<lparr>sequenceNumber = sn, messageId = ''id-'' @ sn, body = ''{}'', properties = [],
      enqueuedTime = ''noon'', deliveryCount = 1, sourceQueue = None,
      sourceConnectionString = None\<rparr>"

definition orders :: Queue where
  "orders = \<lparr>queue_name = ''orders'', connectionId = ''c1''\<rparr>"

definition archive :: Queue where
  "archive = \<lparr>queue_name = ''archive'', connectionId = ''c1''\<rparr>"

definition ordersPanel :: QueueMessagesPanel where
  "ordersPanel = \<lparr>panel_queue = orders, panel_connectionString = ''Endpoint=sb://a''\<rparr>"

definition mock_state :: "ServiceBusReceivedMessage list \<Rightarrow> mock_broker extension_state" where
  "mock_state q =
     \<lparr>broker = \<lparr>mb_queue = q, mb_sent = []\<rparr>, calls = [], notifications = [],
      secrets = [secretKey ''c1'' \<mapsto> ''Endpoint=sb://a''],
      globalState = Map.empty, connections = [], pendingDragMessage = None,
      currentPanel = Some ordersPanel\<rparr>"

definition demoBatch :: "MessageData list" where
  "demoBatch = map (attachSource ordersPanel) [snapshot ''3'', snapshot ''7'']"

definition demoState :: "mock_broker extension_state" where
  "demoState = mock_state [queued ''3'', queued ''7'']"

definition lostMessage :: MessageData where
  "lostMessage = attachSource ordersPanel (snapshot ''9'')"

definition emptyBroker :: mock_broker where
  "emptyBroker = \<lparr>mb_queue = [], mb_sent = []\<rparr>"

text \<open>A drop that carries nothing but the pending drag message.\<close>

definition no_decode :: "string \<Rightarrow> string option" where
  "no_decode v = None"

definition no_parse :: "string \<Rightarrow> message_arg option" where
  "no_parse v = None"

definition emptyTransfer :: DataTransfer where
  "emptyTransfer = \<lparr>uri_list = None, text_plain = None\<rparr>"

text \<open>
  A session on the connection list, and a trim for it that strips the ASCII white space
  and line terminators only.
\<close>

definition is_space :: "char \<Rightarrow> bool" where
  "is_space c = (c \<in> set [CHR 0x09, CHR 0x0A, CHR 0x0B, CHR 0x0C, CHR 0x0D, CHR 0x20])"

definition ascii_trim :: "string \<Rightarrow> string" where
  "ascii_trim v = rev (dropWhile is_space (rev (dropWhile is_space v)))"

definition demoInput :: AddInput where
  "demoInput =
     \<lparr>name_input = Some '' prod'', connectionString_input = Some ''Endpoint=sb://a '',
      generated_id = ''17-x'', now = 42\<rparr>"

definition demoOps :: "provider_op list" where
  "demoOps =
     [AddConnection demoInput, Restart,
      AddConnection (demoInput\<lparr>generated_id := ''18-y'', name_input := Some ''test''\<rparr>),
      DeleteConnection
        \<lparr>conn_id = ''17-x'', conn_name = ''prod'', connectionString = [], createdAt = 42\<rparr>
        (Some ''Delete'')]"

section \<open>The batch loop\<close>

lemma moveLoop_batchLoop:
  "moveLoop sdk targetQueue cs msgs results s = batchLoop (moveOne sdk targetQueue cs) msgs results s"
  by (induction msgs arbitrary: results s) (auto split: prod.splits)

lemma deleteLoop_batchLoop:
  "deleteLoop sdk queueName msgs results s = batchLoop (deleteOne sdk queueName) msgs results s"
  by (induction msgs arbitrary: results s) (auto split: prod.splits)

lemma moveStateBefore_stateBefore:
  "moveStateBefore sdk targetQueue cs msgs k s = stateBefore (moveOne sdk targetQueue cs) msgs k s"
  by (simp add: moveStateBefore_def stateBefore_def moveLoop_batchLoop)

lemma deleteStateBefore_stateBefore:
  "deleteStateBefore sdk queueName msgs k s = stateBefore (deleteOne sdk queueName) msgs k s"
  by (simp add: deleteStateBefore_def stateBefore_def deleteLoop_batchLoop)

lemma batchLoop_append:
  "batchLoop step (xs @ ys) results s =
     (case batchLoop step xs results s of (results', s') \<Rightarrow> batchLoop step ys results' s')"
  by (induction xs arbitrary: results s) (auto split: prod.splits)

lemma batchLoop_state_indep:
  "snd (batchLoop step msgs results s) = snd (batchLoop step msgs results' s)"
  by (induction msgs arbitrary: results results' s) (auto split: prod.splits)

lemma batchLoop_outcome:
  "successful (fst (batchLoop step msgs results s)) =
     successful results @ successful (fst (batchLoop step msgs emptyOutcome s)) \<and>
   failed (fst (batchLoop step msgs results s)) =
     failed results @ failed (fst (batchLoop step msgs emptyOutcome s))"
proof (induction msgs arbitrary: results s)
  case Nil
  show ?case by (simp add: emptyOutcome_def)
next
  case (Cons msg rest)
  obtain r s' where step: "step msg s = (r, s')" by (cases "step msg s")
  have a: "successful (fst (batchLoop step rest (record_result msg r results) s')) =
        successful (record_result msg r results) @ successful (fst (batchLoop step rest emptyOutcome s'))"
    and b: "failed (fst (batchLoop step rest (record_result msg r results) s')) =
        failed (record_result msg r results) @ failed (fst (batchLoop step rest emptyOutcome s'))"
    using Cons.IH [of "record_result msg r results" s'] by simp_all
  have c: "successful (fst (batchLoop step rest (record_result msg r emptyOutcome) s')) =
        successful (record_result msg r emptyOutcome) @ successful (fst (batchLoop step rest emptyOutcome s'))"
    and d: "failed (fst (batchLoop step rest (record_result msg r emptyOutcome) s')) =
        failed (record_result msg r emptyOutcome) @ failed (fst (batchLoop step rest emptyOutcome s'))"
    using Cons.IH [of "record_result msg r emptyOutcome" s'] by simp_all
  show ?case
    using a b c d step
    by (cases r) (simp_all add: record_result_def emptyOutcome_def)
qed

lemma stateBefore_0: "stateBefore step msgs 0 s = s"
  by (simp add: stateBefore_def)

lemma stateBefore_Suc:
  assumes "k < length msgs"
  shows "stateBefore step msgs (Suc k) s = snd (step (msgs ! k) (stateBefore step msgs k s))"
proof -
  have "take (Suc k) msgs = take k msgs @ [msgs ! k]"
    using assms by (simp add: take_Suc_conv_app_nth)
  then show ?thesis
    by (simp add: stateBefore_def batchLoop_append split: prod.splits)
qed

lemma stateBefore_length:
  "snd (batchLoop step msgs results s) = stateBefore step msgs (length msgs) s"
  by (simp add: stateBefore_def batchLoop_state_indep [of step msgs results s emptyOutcome])

lemma batchLoop_item:
  assumes k: "k < length msgs"
    and r: "fst (step (msgs ! k) (stateBefore step msgs k s)) = r"
  shows "fst (batchLoop step msgs emptyOutcome s) =
     \<lparr>successful =
        successful (record_result (msgs ! k) r (fst (batchLoop step (take k msgs) emptyOutcome s)))
        @ successful (fst (batchLoop step (drop (Suc k) msgs) emptyOutcome
                             (stateBefore step msgs (Suc k) s))),
      failed =
        failed (record_result (msgs ! k) r (fst (batchLoop step (take k msgs) emptyOutcome s)))
        @ failed (fst (batchLoop step (drop (Suc k) msgs) emptyOutcome
                         (stateBefore step msgs (Suc k) s)))\<rparr>"
proof -
  have split: "msgs = take k msgs @ (msgs ! k) # drop (Suc k) msgs"
    using k by (simp add: id_take_nth_drop [symmetric])
  obtain r1 s1 where l1: "batchLoop step (take k msgs) emptyOutcome s = (r1, s1)"
    by (cases "batchLoop step (take k msgs) emptyOutcome s")
  then have s1: "s1 = stateBefore step msgs k s" by (simp add: stateBefore_def)
  obtain s2 where st: "step (msgs ! k) s1 = (r, s2)"
    using r s1 by (cases "step (msgs ! k) s1") auto
  have s2: "s2 = stateBefore step msgs (Suc k) s"
    using stateBefore_Suc [OF k, of step s] st s1 by simp
  let ?acc = "record_result (msgs ! k) r r1"
  have "batchLoop step msgs emptyOutcome s = batchLoop step (drop (Suc k) msgs) ?acc s2"
    by (subst split) (simp add: batchLoop_append l1 st)
  then show ?thesis
    using batchLoop_outcome [of step "drop (Suc k) msgs" ?acc s2] l1 s2 by simp
qed

lemma batchLoop_item_failed:
  assumes "k < length msgs"
    and "fst (step (msgs ! k) (stateBefore step msgs k s)) = Inl e"
  shows "(msgs ! k, errorMessage e) \<in> set (failed (fst (batchLoop step msgs emptyOutcome s)))"
  using batchLoop_item [of k msgs step s "Inl e"] assms by (simp add: record_result_def)

lemma batchLoop_item_successful:
  assumes "k < length msgs"
    and "fst (step (msgs ! k) (stateBefore step msgs k s)) = Inr u"
  shows "msgs ! k \<in> set (successful (fst (batchLoop step msgs emptyOutcome s)))"
  using batchLoop_item [of k msgs step s "Inr u"] assms by (simp add: record_result_def)

lemma batchLoop_partition:
  "\<exists>ss fs. successful (fst (batchLoop step msgs results s)) = successful results @ ss \<and>
           failed (fst (batchLoop step msgs results s)) = failed results @ fs \<and>
           subseq ss msgs \<and> subseq (map fst fs) msgs \<and>
           mset ss + mset (map fst fs) = mset msgs"
proof (induction msgs arbitrary: results s)
  case Nil
  show ?case by simp
next
  case (Cons msg rest)
  obtain r s' where step: "step msg s = (r, s')" by (cases "step msg s")
  obtain ss fs where ih:
    "successful (fst (batchLoop step rest (record_result msg r results) s')) =
       successful (record_result msg r results) @ ss"
    "failed (fst (batchLoop step rest (record_result msg r results) s')) =
       failed (record_result msg r results) @ fs"
    "subseq ss rest" "subseq (map fst fs) rest" "mset ss + mset (map fst fs) = mset rest"
    using Cons.IH [of "record_result msg r results" s'] by blast
  show ?case
  proof (cases r)
    case (Inl e)
    have "subseq ss (msg # rest)" using ih(3) by (rule list_emb_Cons)
    then show ?thesis
      using ih step Inl
      by (intro exI [of _ ss] exI [of _ "(msg, errorMessage e) # fs"])
         (simp add: record_result_def)
  next
    case (Inr u)
    have "subseq (map fst fs) (msg # rest)" using ih(4) by (rule list_emb_Cons)
    then show ?thesis
      using ih step Inr
      by (intro exI [of _ "msg # ss"] exI [of _ fs]) (simp add: record_result_def)
  qed
qed

lemma batchLoop_all_ok:
  assumes "\<forall>k < length msgs. fst (step (msgs ! k) (stateBefore step msgs k s)) = Inr ()"
  shows "fst (batchLoop step msgs emptyOutcome s) = \<lparr>successful = msgs, failed = []\<rparr>"
  using assms
proof (induction msgs rule: rev_induct)
  case Nil
  show ?case by (simp add: emptyOutcome_def)
next
  case (snoc x xs)
  have pre: "\<forall>k < length xs. fst (step (xs ! k) (stateBefore step xs k s)) = Inr ()"
  proof (intro allI impI)
    fix k assume k: "k < length xs"
    then have "fst (step ((xs @ [x]) ! k) (stateBefore step (xs @ [x]) k s)) = Inr ()"
      using snoc.prems by simp
    then show "fst (step (xs ! k) (stateBefore step xs k s)) = Inr ()"
      using k by (simp add: stateBefore_def nth_append)
  qed
  obtain s1 where l1: "batchLoop step xs emptyOutcome s = (\<lparr>successful = xs, failed = []\<rparr>, s1)"
    using snoc.IH [OF pre] by (cases "batchLoop step xs emptyOutcome s") auto
  have "fst (step x (stateBefore step (xs @ [x]) (length xs) s)) = Inr ()"
    using snoc.prems by (auto dest: spec [of _ "length xs"])
  then have "fst (step x s1) = Inr ()"
    using l1 by (simp add: stateBefore_def)
  then show ?case
    by (cases "step x s1") (simp add: batchLoop_append l1 record_result_def)
qed

section \<open>Rules for the call log\<close>

lemma emitsD: "emits m P \<Longrightarrow> m s = (r, s') \<Longrightarrow> \<exists>seg. calls s' = calls s @ seg \<and> P r seg"
  by (simp add: emits_def)

lemma emits_return: "P (Inr x) [] \<Longrightarrow> emits (return_io x) P"
  by (simp add: emits_def return_io_def)

lemma emits_throw: "P (Inl e) [] \<Longrightarrow> emits (throw_io e) P"
  by (simp add: emits_def throw_io_def)

lemma emits_sdk_call: "(\<And>r. P r [ev r]) \<Longrightarrow> emits (sdk_call opn ev) P"
  by (auto simp: emits_def sdk_call_def split: prod.splits)

lemma emits_weaken: "emits m Q \<Longrightarrow> (\<And>r seg. Q r seg \<Longrightarrow> P r seg) \<Longrightarrow> emits m P"
  unfolding emits_def by blast

lemma emits_conj: "emits m P \<Longrightarrow> emits m Q \<Longrightarrow> emits m (\<lambda>r seg. P r seg \<and> Q r seg)"
  unfolding emits_def by fastforce

lemma emits_bind:
  assumes m: "emits m Q"
    and f: "\<And>x. emits (f x) (R x)"
    and err: "\<And>e seg. Q (Inl e) seg \<Longrightarrow> P (Inl e) seg"
    and seq: "\<And>x seg1 r seg2. Q (Inr x) seg1 \<Longrightarrow> R x r seg2 \<Longrightarrow> P r (seg1 @ seg2)"
  shows "emits (bind_io m f) P"
  unfolding emits_def
proof (intro allI impI)
  fix s r s'
  assume run: "bind_io m f s = (r, s')"
  obtain r1 s1 where m1: "m s = (r1, s1)" by (cases "m s")
  then obtain seg1 where seg1: "calls s1 = calls s @ seg1" "Q r1 seg1"
    using emitsD [OF m] by blast
  show "\<exists>seg. calls s' = calls s @ seg \<and> P r seg"
  proof (cases r1)
    case (Inl e)
    then have "r = Inl e" "s' = s1" using run m1 by (simp_all add: bind_io_def)
    then show ?thesis using seg1 err Inl by auto
  next
    case (Inr x)
    then have "f x s1 = (r, s')" using run m1 by (simp add: bind_io_def)
    then obtain seg2 where "calls s' = calls s1 @ seg2" "R x r seg2"
      using emitsD [OF f] by blast
    then show ?thesis using seg1 seq Inr by auto
  qed
qed

lemma emits_finally:
  assumes m: "emits m Q"
    and fin: "emits fin R"
    and err: "\<And>r seg1 e seg2. Q r seg1 \<Longrightarrow> R (Inl e) seg2 \<Longrightarrow> P (Inl e) (seg1 @ seg2)"
    and ok: "\<And>r seg1 u seg2. Q r seg1 \<Longrightarrow> R (Inr u) seg2 \<Longrightarrow> P r (seg1 @ seg2)"
  shows "emits (finally_io m fin) P"
  unfolding emits_def
proof (intro allI impI)
  fix s r s'
  assume run: "finally_io m fin s = (r, s')"
  obtain r1 s1 where m1: "m s = (r1, s1)" by (cases "m s")
  then obtain seg1 where seg1: "calls s1 = calls s @ seg1" "Q r1 seg1"
    using emitsD [OF m] by blast
  obtain r2 s2 where f2: "fin s1 = (r2, s2)" by (cases "fin s1")
  then obtain seg2 where seg2: "calls s2 = calls s1 @ seg2" "R r2 seg2"
    using emitsD [OF fin] by blast
  show "\<exists>seg. calls s' = calls s @ seg \<and> P r seg"
  proof (cases r2)
    case (Inl e)
    then have "r = Inl e" "s' = s2" using run m1 f2 by (simp_all add: finally_io_def)
    then show ?thesis using seg1 seg2 err Inl by auto
  next
    case (Inr u)
    then have "r = r1" "s' = s2" using run m1 f2 by (simp_all add: finally_io_def)
    then show ?thesis using seg1 seg2 ok Inr by auto
  qed
qed

lemma all_bind:
  assumes "emits m (\<lambda>r seg. list_all p seg)" "\<And>x. emits (f x) (\<lambda>r seg. list_all p seg)"
  shows "emits (bind_io m f) (\<lambda>r seg. list_all p seg)"
  by (rule emits_bind [OF assms(1) assms(2)]) simp_all

lemma all_finally:
  assumes "emits m (\<lambda>r seg. list_all p seg)" "emits fin (\<lambda>r seg. list_all p seg)"
  shows "emits (finally_io m fin) (\<lambda>r seg. list_all p seg)"
  by (rule emits_finally [OF assms]) simp_all

lemma reads_broker_sdk_call: "reads_broker (sdk_call opn ev)"
  by (simp add: reads_broker_def sdk_call_def split: prod.splits)

lemma reads_broker_return: "reads_broker (return_io x)"
  by (simp add: reads_broker_def return_io_def)

lemma reads_brokerD:
  assumes "reads_broker m" "broker s = broker t" "calls s = calls t"
    and "m s = (r, s')" "m t = (r', t')"
  shows "r = r'" "broker s' = broker t'" "calls s' = calls t'"
proof -
  have "fst (m s) = fst (m t) \<and> broker (snd (m s)) = broker (snd (m t)) \<and>
        calls (snd (m s)) = calls (snd (m t))"
    using assms(1) [unfolded reads_broker_def, rule_format, of s t] assms(2,3) by simp
  then show "r = r'" "broker s' = broker t'" "calls s' = calls t'"
    using assms(4,5) by simp_all
qed

lemma reads_broker_bind:
  fixes m :: "('a, 'b) io" and f :: "'a \<Rightarrow> ('c, 'b) io"
  assumes "reads_broker m" "\<And>x. reads_broker (f x)"
  shows "reads_broker (bind_io m f)"
  unfolding reads_broker_def
proof (intro allI impI)
  fix s t :: "'b extension_state"
  assume st: "broker s = broker t \<and> calls s = calls t"
  obtain r s' where ms: "m s = (r, s')" by (cases "m s")
  obtain r' t' where mt: "m t = (r', t')" by (cases "m t")
  have eq: "r = r'" "broker s' = broker t'" "calls s' = calls t'"
    using reads_brokerD [OF assms(1) _ _ ms mt] st by simp_all
  show "fst (bind_io m f s) = fst (bind_io m f t) \<and>
        broker (snd (bind_io m f s)) = broker (snd (bind_io m f t)) \<and>
        calls (snd (bind_io m f s)) = calls (snd (bind_io m f t))"
  proof (cases r)
    case (Inl e)
    then show ?thesis using ms mt eq by (simp add: bind_io_def)
  next
    case (Inr x)
    obtain q s'' where fs: "f x s' = (q, s'')" by (cases "f x s'")
    obtain q' t'' where ft: "f x t' = (q', t'')" by (cases "f x t'")
    show ?thesis
      using reads_brokerD [OF assms(2) eq(2,3) fs ft] ms mt eq(1) Inr fs ft
      by (auto simp: bind_io_def)
  qed
qed

lemma reads_broker_finally:
  fixes m :: "('a, 'b) io"
  assumes "reads_broker m" "reads_broker fin"
  shows "reads_broker (finally_io m fin)"
  unfolding reads_broker_def
proof (intro allI impI)
  fix s t :: "'b extension_state"
  assume st: "broker s = broker t \<and> calls s = calls t"
  obtain r s' where ms: "m s = (r, s')" by (cases "m s")
  obtain r' t' where mt: "m t = (r', t')" by (cases "m t")
  have eq: "r = r'" "broker s' = broker t'" "calls s' = calls t'"
    using reads_brokerD [OF assms(1) _ _ ms mt] st by simp_all
  obtain q s'' where fs: "fin s' = (q, s'')" by (cases "fin s'")
  obtain q' t'' where ft: "fin t' = (q', t'')" by (cases "fin t'")
  have eq2: "q = q'" "broker s'' = broker t''" "calls s'' = calls t''"
    using reads_brokerD [OF assms(2) eq(2,3) fs ft] by simp_all
  show "fst (finally_io m fin s) = fst (finally_io m fin t) \<and>
        broker (snd (finally_io m fin s)) = broker (snd (finally_io m fin t)) \<and>
        calls (snd (finally_io m fin s)) = calls (snd (finally_io m fin t))"
    using ms mt eq fs ft eq2 by (simp add: finally_io_def split: sum.splits)
qed

lemma reads_broker_panelPeekMessages: "reads_broker (panelPeekMessages sdk panel)"
  unfolding panelPeekMessages_def openReceiver_def closeReceiverAndClient_def
  by (intro reads_broker_bind reads_broker_finally reads_broker_sdk_call)

section \<open>The calls of each routine\<close>

lemma send_events:
  "emits (sendMessageToQueue sdk queueName cs msg) (\<lambda>r seg. list_all (on_sender queueName cs) seg)"
  unfolding sendMessageToQueue_def closeSenderAndClient_def
  by (intro all_bind all_finally emits_sdk_call) simp_all

lemma processReceived_events:
  "emits (processReceived sdk queueName cs sn msgs found)
     (\<lambda>r seg. list_all (on_receiver queueName cs) seg)"
  by (induction msgs arbitrary: found)
     (auto intro!: all_bind emits_sdk_call emits_return)

lemma scanAttempts_step:
  assumes "attempt < maxAttempts" "\<not> found"
  shows "scanAttempts sdk queueName cs sn attempt found =
     bind_io (sdk_call (receiveMessages sdk cs queueName 100 5000)
                (ReceiveMessages cs queueName 100 5000))
       (\<lambda>messages.
          bind_io (processReceived sdk queueName cs sn messages found)
            (\<lambda>found'.
               if \<not> found' \<and> messages = [] then return_io found'
               else scanAttempts sdk queueName cs sn (attempt + 1) found'))"
  using assms by (subst scanAttempts.simps) simp

lemma scanAttempts_stop:
  assumes "\<not> (attempt < maxAttempts \<and> \<not> found)"
  shows "scanAttempts sdk queueName cs sn attempt found = return_io found"
  using assms by (subst scanAttempts.simps) auto

lemma scanAttempts_events:
  "emits (scanAttempts sdk queueName cs sn attempt found)
     (\<lambda>r seg. list_all (on_receiver queueName cs) seg)"
proof (induction sdk queueName cs sn attempt found rule: scanAttempts.induct)
  case (1 sdk queueName cs sn attempt found)
  show ?case
  proof (cases "attempt < maxAttempts \<and> \<not> found")
    case True
    then have a: "attempt < maxAttempts" and b: "\<not> found" by simp_all
    have rec: "emits (if \<not> found' \<and> messages = [] then return_io found'
                      else scanAttempts sdk queueName cs sn (attempt + 1) found')
                 (\<lambda>r seg. list_all (on_receiver queueName cs) seg)" for messages found'
      using "1.IH" [OF True] by (auto intro: emits_return)
    show ?thesis
      unfolding scanAttempts_step [OF a b]
      by (intro all_bind emits_sdk_call processReceived_events rec) simp
  next
    case False
    then show ?thesis
      by (simp add: scanAttempts_stop emits_return)
  qed
qed

lemma delete_events:
  "emits (deleteMessageFromQueue sdk queueName cs sn)
     (\<lambda>r seg. list_all (on_receiver queueName cs) seg)"
  unfolding deleteMessageFromQueue_def openReceiver_def closeReceiverAndClient_def scanAndCheck_def
  by (intro all_bind all_finally emits_sdk_call scanAttempts_events)
     (auto intro: emits_return emits_throw)

section \<open>The bound on a scan\<close>

lemma receive_requests_append [simp]:
  "receive_requests (xs @ ys) = receive_requests xs @ receive_requests ys"
  by (simp add: receive_requests_def)

lemma receive_requests_Nil [simp]: "receive_requests [] = []"
  by (simp add: receive_requests_def)

lemma receive_requests_Cons [simp]: "receive_requests (e # es) = request_of e @ receive_requests es"
  by (simp add: receive_requests_def)

lemma nonscan_not_receive: "\<not> is_scan_event e \<Longrightarrow> \<not> is_receive e"
  by (cases e) simp_all

lemma nonscan_not_stop: "\<not> is_scan_event e \<Longrightarrow> \<not> is_stop e"
  by (cases e) simp_all

lemma nonscan_request: "\<not> is_scan_event e \<Longrightarrow> request_of e = []"
  by (cases e) simp_all

lemma nonscan_requests: "list_all (\<lambda>e. \<not> is_scan_event e) seg \<Longrightarrow> receive_requests seg = []"
  by (induction seg) (simp_all add: nonscan_request)

lemma nonscan_no_receive: "list_all (\<lambda>e. \<not> is_scan_event e) seg \<Longrightarrow> filter is_receive seg = []"
  by (induction seg) (simp_all add: nonscan_not_receive)

lemma request_no_receive: "receive_requests seg = [] \<Longrightarrow> filter is_receive seg = []"
proof (induction seg)
  case Nil
  show ?case by simp
next
  case (Cons e es)
  then show ?case by (cases e) simp_all
qed

lemma nras_no_receive: "filter is_receive xs = [] \<Longrightarrow> no_receive_after_stop xs"
  by (induction xs) (auto split: if_splits)

lemma nras_append_nostop:
  "list_all (\<lambda>e. \<not> is_stop e) xs \<Longrightarrow> no_receive_after_stop (xs @ ys) = no_receive_after_stop ys"
  by (induction xs) simp_all

lemma nras_append_no_receive:
  "no_receive_after_stop xs \<Longrightarrow> filter is_receive ys = [] \<Longrightarrow> no_receive_after_stop (xs @ ys)"
  by (induction xs) (auto simp: nras_no_receive)

lemma processReceived_Nil: "processReceived sdk queueName cs sn [] found = return_io found"
  by simp

lemma processReceived_found:
  "found \<Longrightarrow> emits (processReceived sdk queueName cs sn msgs found)
     (\<lambda>r seg. receive_requests seg = [] \<and> r \<noteq> Inr False)"
proof (induction msgs)
  case Nil
  then show ?case by (simp add: emits_return)
next
  case (Cons m ms)
  have step: "emits (bind_io (sdk_call opn ev) (\<lambda>_. processReceived sdk queueName cs sn ms True))
       (\<lambda>r seg. receive_requests seg = [] \<and> r \<noteq> Inr False)"
    if "\<And>r. request_of (ev r) = []" for opn :: "'a \<Rightarrow> (exn + unit) \<times> 'a" and ev
    apply (rule emits_bind [where Q = "\<lambda>r seg. seg = [ev r]"
               and R = "\<lambda>_ r seg. receive_requests seg = [] \<and> r \<noteq> Inr False"])
       apply (rule emits_sdk_call, simp)
    using Cons apply simp
     apply (simp add: that)
    apply (simp add: that)
    done
  show ?case
    using Cons.prems by (auto intro!: step)
qed

lemma processReceived_stops:
  "emits (processReceived sdk queueName cs sn msgs found)
     (\<lambda>r seg. receive_requests seg = [] \<and> (r = Inr False \<longrightarrow> list_all (\<lambda>e. \<not> is_stop e) seg))"
proof (induction msgs arbitrary: found)
  case Nil
  show ?case by (simp add: emits_return)
next
  case (Cons m ms)
  show ?case
  proof (cases "rm_sequenceNumber m = Some sn")
    case True
    show ?thesis
      using True
      apply simp
      apply (rule emits_bind [where Q = "\<lambda>r seg. seg = [CompleteMessage cs queueName m r]"
                 and R = "\<lambda>_ r seg. receive_requests seg = [] \<and> r \<noteq> Inr False"])
         apply (rule emits_sdk_call, simp)
        apply (rule processReceived_found, simp)
       apply simp
      apply simp
      done
  next
    case False
    show ?thesis
      using False
      apply simp
      apply (rule emits_bind [where Q = "\<lambda>r seg. seg = [AbandonMessage cs queueName m r]"
                 and R = "\<lambda>_ r seg. receive_requests seg = [] \<and>
                           (r = Inr False \<longrightarrow> list_all (\<lambda>e. \<not> is_stop e) seg)"])
         apply (rule emits_sdk_call, simp)
        apply (rule Cons.IH)
       apply simp
      apply simp
      done
  qed
qed

lemma scan_bound_Nil: "scan_bound n []"
  by (simp add: scan_bound_def)

lemma scan_bound_receive_only:
  "scan_bound (Suc n) [ReceiveMessages cs q 100 5000 r]"
  by (simp add: scan_bound_def)

lemma scan_bound_batch:
  assumes "receive_requests seg = []"
  shows "scan_bound (Suc n) (ReceiveMessages cs q 100 5000 r # seg)"
  using assms by (simp add: scan_bound_def request_no_receive nras_no_receive)

lemma scan_bound_continue:
  assumes "receive_requests seg1 = []" "list_all (\<lambda>e. \<not> is_stop e) seg1" "msgs \<noteq> []"
    and "scan_bound n seg2"
  shows "scan_bound (Suc n) (ReceiveMessages cs q 100 5000 (Inr msgs) # seg1 @ seg2)"
proof -
  have "\<not> is_stop (ReceiveMessages cs q 100 5000 (Inr msgs))"
    using assms(3) by (cases msgs) simp_all
  then show ?thesis
    using assms by (simp add: scan_bound_def nras_append_nostop)
qed

lemma scanAttempts_bound:
  "emits (scanAttempts sdk queueName cs sn attempt found)
     (\<lambda>r seg. scan_bound (maxAttempts - attempt) seg)"
proof (induction sdk queueName cs sn attempt found rule: scanAttempts.induct)
  case (1 sdk queueName cs sn attempt found)
  show ?case
  proof (cases "attempt < maxAttempts \<and> \<not> found")
    case False
    then show ?thesis
      by (simp add: scanAttempts_stop emits_return scan_bound_Nil)
  next
    case True
    then have a: "attempt < maxAttempts" and b: "\<not> found" by simp_all
    obtain n where n: "maxAttempts - attempt = Suc n" "maxAttempts - (attempt + 1) = n"
      using a by (cases "maxAttempts - attempt") auto
    let ?recv = "\<lambda>r. ReceiveMessages cs queueName 100 5000 r"
    have rest: "emits (if \<not> found' \<and> messages = [] then return_io found'
                       else scanAttempts sdk queueName cs sn (attempt + 1) found')
                  (\<lambda>r seg. scan_bound n seg \<and> (found' \<or> messages = [] \<longrightarrow> seg = []))"
      for messages found'
    proof (cases "\<not> found' \<and> messages = []")
      case True
      then show ?thesis by (simp add: emits_return scan_bound_Nil)
    next
      case False
      show ?thesis
      proof (cases found')
        case True
        then show ?thesis
          by (simp add: scanAttempts_stop emits_return scan_bound_Nil)
      next
        case f: False
        with False have ne: "messages \<noteq> []" by simp
        have "emits (scanAttempts sdk queueName cs sn (attempt + 1) found')
                (\<lambda>r seg. scan_bound n seg)"
          using "1.IH" [OF True] False n by auto
        then show ?thesis
          using f ne by (simp add: emits_weaken)
      qed
    qed
    have batch: "emits (bind_io (processReceived sdk queueName cs sn messages found)
            (\<lambda>found'. if \<not> found' \<and> messages = [] then return_io found'
                       else scanAttempts sdk queueName cs sn (attempt + 1) found'))
          (\<lambda>r seg. scan_bound (Suc n) (?recv (Inr messages) # seg))" for messages
    proof (rule emits_bind [OF processReceived_stops rest])
      fix e seg
      assume "receive_requests seg = [] \<and>
              (Inl e = Inr False \<longrightarrow> list_all (\<lambda>e. \<not> is_stop e) seg)"
      then show "scan_bound (Suc n) (?recv (Inr messages) # seg)"
        by (simp add: scan_bound_batch)
    next
      fix found' seg1 r seg2
      assume q: "receive_requests seg1 = [] \<and>
              (Inr found' = Inr False \<longrightarrow> list_all (\<lambda>e. \<not> is_stop e) seg1)"
        and r: "scan_bound n seg2 \<and> (found' \<or> messages = [] \<longrightarrow> seg2 = [])"
      show "scan_bound (Suc n) (?recv (Inr messages) # seg1 @ seg2)"
      proof (cases "found' \<or> messages = []")
        case True
        then show ?thesis using q r by (simp add: scan_bound_batch)
      next
        case False
        then show ?thesis using q r by (simp add: scan_bound_continue)
      qed
    qed
    show ?thesis
      unfolding scanAttempts_step [OF a b] n(1)
    proof (rule emits_bind [where Q = "\<lambda>r seg. seg = [?recv r]"
                and R = "\<lambda>messages r seg. scan_bound (Suc n) (?recv (Inr messages) # seg)"])
      show "emits (sdk_call (receiveMessages sdk cs queueName 100 5000) ?recv)
              (\<lambda>r seg. seg = [?recv r])"
        by (rule emits_sdk_call) simp
    qed (simp_all add: batch scan_bound_receive_only)
  qed
qed

lemma open_nonscan:
  "emits (openReceiver sdk queueName cs) (\<lambda>r seg. list_all (\<lambda>e. \<not> is_scan_event e) seg)"
  unfolding openReceiver_def by (intro all_bind emits_sdk_call) simp_all

lemma close_nonscan:
  "emits (closeReceiverAndClient sdk queueName cs) (\<lambda>r seg. list_all (\<lambda>e. \<not> is_scan_event e) seg)"
  unfolding closeReceiverAndClient_def by (intro all_bind emits_sdk_call) simp_all

lemma scanAndCheck_trace:
  assumes "emits (scanAttempts sdk queueName cs sn 0 False) (\<lambda>r seg. T seg)"
  shows "emits (scanAndCheck sdk queueName cs sn) (\<lambda>r seg. T seg)"
  unfolding scanAndCheck_def
  by (rule emits_bind [OF assms, where R = "\<lambda>_ r seg. seg = []"])
     (auto intro: emits_return emits_throw)

lemma delete_shape:
  assumes scan: "emits (scanAttempts sdk queueName cs sn 0 False) (\<lambda>r seg. T seg)"
    and nil: "T []"
  shows "emits (deleteMessageFromQueue sdk queueName cs sn)
     (\<lambda>r seg. \<exists>pre mid post. seg = pre @ mid @ post \<and>
         list_all (\<lambda>e. \<not> is_scan_event e) pre \<and> list_all (\<lambda>e. \<not> is_scan_event e) post \<and> T mid)"
  unfolding deleteMessageFromQueue_def
proof (rule emits_bind [OF open_nonscan,
         where R = "\<lambda>_ r seg. \<exists>mid post. seg = mid @ post \<and>
                       list_all (\<lambda>e. \<not> is_scan_event e) post \<and> T mid"])
  show "emits (finally_io (scanAndCheck sdk queueName cs sn) (closeReceiverAndClient sdk queueName cs))
          (\<lambda>r seg. \<exists>mid post. seg = mid @ post \<and> list_all (\<lambda>e. \<not> is_scan_event e) post \<and> T mid)"
    by (rule emits_finally [OF scanAndCheck_trace [OF scan] close_nonscan]) auto
next
  fix e seg
  assume "list_all (\<lambda>e. \<not> is_scan_event e) seg"
  then have "seg = seg @ [] @ [] \<and> list_all (\<lambda>e. \<not> is_scan_event e) seg \<and>
             list_all (\<lambda>e. \<not> is_scan_event e) [] \<and> T []"
    using nil by simp
  then show "\<exists>pre mid post. seg = pre @ mid @ post \<and>
         list_all (\<lambda>e. \<not> is_scan_event e) pre \<and> list_all (\<lambda>e. \<not> is_scan_event e) post \<and> T mid"
    by blast
next
  fix x :: unit and seg1 r seg2
  assume "list_all (\<lambda>e. \<not> is_scan_event e) seg1"
    and "\<exists>mid post. seg2 = mid @ post \<and> list_all (\<lambda>e. \<not> is_scan_event e) post \<and> T mid"
  then show "\<exists>pre mid post. seg1 @ seg2 = pre @ mid @ post \<and>
         list_all (\<lambda>e. \<not> is_scan_event e) pre \<and> list_all (\<lambda>e. \<not> is_scan_event e) post \<and> T mid"
    by blast
qed

lemma nonscan_nostop: "list_all (\<lambda>e. \<not> is_scan_event e) seg \<Longrightarrow> list_all (\<lambda>e. \<not> is_stop e) seg"
  by (induction seg) (simp_all add: nonscan_not_stop)

lemma scan_bound_framed:
  assumes "list_all (\<lambda>e. \<not> is_scan_event e) pre" "list_all (\<lambda>e. \<not> is_scan_event e) post"
    and "scan_bound n mid"
  shows "scan_bound n (pre @ mid @ post)"
  using assms
  by (simp add: scan_bound_def nonscan_requests nras_append_nostop nonscan_nostop
        nras_append_no_receive nonscan_no_receive)

section \<open>What a scan does to the messages it receives\<close>

lemma projections_simps [simp]:
  "received [] = []" "received (e # es) = received_of e @ received es"
  "received (xs @ ys) = received xs @ received ys"
  "completed [] = []" "completed (e # es) = completed_of e @ completed es"
  "completed (xs @ ys) = completed xs @ completed ys"
  "abandoned [] = []" "abandoned (e # es) = abandoned_of e @ abandoned es"
  "abandoned (xs @ ys) = abandoned xs @ abandoned ys"
  "other_than sn [] = []" "other_than sn (ms @ ns) = other_than sn ms @ other_than sn ns"
  by (simp_all add: received_def completed_def abandoned_def other_than_def)









section \<open>The bulk operations and their loops\<close>

lemma moveMessageToQueue_outcome:
  assumes "moveMessageToQueue sdk messageData targetQueue s = (Some results, s1)"
    and "getConnectionString s (connectionId targetQueue) = Some cs"
  shows "results = fst (batchLoop (moveOne sdk targetQueue cs) (toArray messageData) emptyOutcome s)"
    and "s1 = notify (moveSummary (queue_name targetQueue) (length (toArray messageData)) results)
                (stateBefore (moveOne sdk targetQueue cs) (toArray messageData)
                   (length (toArray messageData)) s)"
    and "cs \<noteq> []"
proof -
  show ne: "cs \<noteq> []"
    using assms by (auto simp: moveMessageToQueue_def split: if_splits)
  obtain r s' where l: "batchLoop (moveOne sdk targetQueue cs) (toArray messageData) emptyOutcome s = (r, s')"
    by (cases "batchLoop (moveOne sdk targetQueue cs) (toArray messageData) emptyOutcome s")
  then have "results = r"
    and s1: "s1 = notify (moveSummary (queue_name targetQueue) (length (toArray messageData)) r) s'"
    using assms ne by (auto simp: moveMessageToQueue_def moveLoop_batchLoop)
  then show "results = fst (batchLoop (moveOne sdk targetQueue cs) (toArray messageData) emptyOutcome s)"
    using l by simp
  have "s' = stateBefore (moveOne sdk targetQueue cs) (toArray messageData)
                   (length (toArray messageData)) s"
    using l stateBefore_length [of "moveOne sdk targetQueue cs" "toArray messageData" emptyOutcome s]
    by simp
  then show "s1 = notify (moveSummary (queue_name targetQueue) (length (toArray messageData)) results)
                (stateBefore (moveOne sdk targetQueue cs) (toArray messageData)
                   (length (toArray messageData)) s)"
    using s1 \<open>results = r\<close> by simp
qed

lemma deleteMessages_outcome:
  assumes "deleteMessages sdk messageData s = (Inr (Some results), s1)"
    and "toArray messageData = firstMessage # rest"
    and "sourceQueue firstMessage = Some sq"
  shows "results = fst (batchLoop (deleteOne sdk (queue_name sq)) (toArray messageData) emptyOutcome s)"
    and "s1 = afterDelete sdk (queue_name sq) (length (toArray messageData)) results
                (stateBefore (deleteOne sdk (queue_name sq)) (toArray messageData)
                   (length (toArray messageData)) s)"
    and "truthy (sourceConnectionString firstMessage)"
proof -
  let ?msgs = "toArray messageData"
  show t: "truthy (sourceConnectionString firstMessage)"
    using assms by (auto simp: deleteMessages_def split: if_splits)
  obtain r s' where l: "batchLoop (deleteOne sdk (queue_name sq)) ?msgs emptyOutcome s = (r, s')"
    by (cases "batchLoop (deleteOne sdk (queue_name sq)) ?msgs emptyOutcome s")
  have dl: "deleteLoop sdk (queue_name sq) (firstMessage # rest) emptyOutcome s = (r, s')"
    using l assms(2) by (simp only: deleteLoop_batchLoop)
  have "deleteMessages sdk messageData s =
      (Inr (Some r), afterDelete sdk (queue_name sq) (length ?msgs) r s')"
    using assms(2,3) t dl
    by (simp add: deleteMessages_def del: deleteLoop.simps)
  then have "results = r"
    and s1: "s1 = afterDelete sdk (queue_name sq) (length ?msgs) r s'"
    using assms(1) by auto
  then show "results = fst (batchLoop (deleteOne sdk (queue_name sq)) ?msgs emptyOutcome s)"
    using l by simp
  have "s' = stateBefore (deleteOne sdk (queue_name sq)) ?msgs (length ?msgs) s"
    using l stateBefore_length [of "deleteOne sdk (queue_name sq)" ?msgs emptyOutcome s]
    by simp
  then show "s1 = afterDelete sdk (queue_name sq) (length ?msgs) results
                (stateBefore (deleteOne sdk (queue_name sq)) ?msgs (length ?msgs) s)"
    using s1 \<open>results = r\<close> by simp
qed

lemma moveOne_ok:
  assumes "sendMessageToQueue sdk (queue_name targetQueue) cs msg s = (Inr (), s')"
    and "\<And>sq scs. sourceQueue msg = Some sq \<Longrightarrow> sourceConnectionString msg = Some scs \<Longrightarrow>
           scs \<noteq> [] \<Longrightarrow>
           fst (deleteMessageFromQueue sdk (queue_name sq) scs (sequenceNumber msg) s') = Inr ()"
  shows "fst (moveOne sdk targetQueue cs msg s) = Inr ()"
  using assms
  by (auto simp: moveOne_def bind_io_def return_io_def split: option.splits)

lemma deleteOne_ok:
  assumes "sourceConnectionString msg = Some scs" "scs \<noteq> []"
    and "fst (deleteMessageFromQueue sdk queueName scs (sequenceNumber msg) s) = Inr ()"
  shows "fst (deleteOne sdk queueName msg s) = Inr ()"
  using assms by (simp add: deleteOne_def)

lemma on_sender_not_delete: "on_sender queueName cs e \<Longrightarrow> \<not> is_delete_event e"
  by (cases e) simp_all

lemma on_receiver_targets: "on_receiver queueName cs e \<Longrightarrow> targets_queue queueName e"
  by (cases e) simp_all







lemma batchLoop_emits:
  assumes "\<And>msg. emits (step msg) (\<lambda>r seg. list_all p seg)"
  shows "\<exists>seg. calls (snd (batchLoop step msgs results s)) = calls s @ seg \<and> list_all p seg"
proof (induction msgs arbitrary: results s)
  case Nil
  show ?case by simp
next
  case (Cons msg rest)
  obtain r s' where st: "step msg s = (r, s')" by (cases "step msg s")
  then obtain seg1 where seg1: "calls s' = calls s @ seg1" "list_all p seg1"
    using emitsD [OF assms] by blast
  obtain seg2 where seg2:
    "calls (snd (batchLoop step rest (record_result msg r results) s')) = calls s' @ seg2"
    "list_all p seg2"
    using Cons.IH by blast
  have "calls (snd (batchLoop step (msg # rest) results s)) = calls s @ (seg1 @ seg2)"
    using st seg1(1) seg2(1) by simp
  moreover have "list_all p (seg1 @ seg2)" using seg1(2) seg2(2) by simp
  ultimately show ?case by blast
qed

lemma deleteOne_targets:
  "emits (deleteOne sdk queueName msg) (\<lambda>r seg. list_all (targets_queue queueName) seg)"
proof -
  have "emits (deleteMessageFromQueue sdk queueName scs sn)
          (\<lambda>r seg. list_all (targets_queue queueName) seg)" for scs sn
    by (rule emits_weaken [OF delete_events])
       (auto simp: list_all_iff intro: on_receiver_targets)
  then show ?thesis
    by (cases "sourceConnectionString msg") (simp_all add: deleteOne_def emits_throw)
qed

lemma deleteOne_ignores_sourceQueue:
  "deleteOne sdk queueName (msg\<lparr>sourceQueue := x\<rparr>) = deleteOne sdk queueName msg"
  by (cases "sourceConnectionString msg") (simp_all add: deleteOne_def)

lemma deleteMessages_run:
  assumes "toArray messageData = firstMessage # rest"
    and "sourceQueue firstMessage = Some sq"
    and "truthy (sourceConnectionString firstMessage)"
  shows "deleteMessages sdk messageData s =
     (Inr (Some (fst (batchLoop (deleteOne sdk (queue_name sq)) (firstMessage # rest) emptyOutcome s))),
      afterDelete sdk (queue_name sq) (Suc (length rest))
        (fst (batchLoop (deleteOne sdk (queue_name sq)) (firstMessage # rest) emptyOutcome s))
        (snd (batchLoop (deleteOne sdk (queue_name sq)) (firstMessage # rest) emptyOutcome s)))"
proof -
  obtain r s' where l: "deleteLoop sdk (queue_name sq) (firstMessage # rest) emptyOutcome s = (r, s')"
    by (cases "deleteLoop sdk (queue_name sq) (firstMessage # rest) emptyOutcome s")
  then have "batchLoop (deleteOne sdk (queue_name sq)) (firstMessage # rest) emptyOutcome s = (r, s')"
    by (simp only: deleteLoop_batchLoop)
  moreover have "deleteMessages sdk messageData s =
      (Inr (Some r), afterDelete sdk (queue_name sq) (Suc (length rest)) r s')"
    using assms l by (simp add: deleteMessages_def del: deleteLoop.simps)
  ultimately show ?thesis by simp
qed

lemma batchLoop_state_cong:
  assumes "\<And>m. step (g m) = step m"
  shows "snd (batchLoop step (map g msgs) results s) = snd (batchLoop step msgs results' s)"
proof (induction msgs arbitrary: results results' s)
  case Nil
  show ?case by simp
next
  case (Cons m ms)
  show ?case
    using Cons.IH by (simp add: assms split: prod.splits)
qed

text \<open>One item of a bulk delete, and the refresh after the loop.\<close>

lemma reads_broker_refreshView:
  assumes "broker s = broker t" "calls s = calls t"
  shows "broker (refreshView sdk panel s) = broker (refreshView sdk panel t)"
    and "calls (refreshView sdk panel s) = calls (refreshView sdk panel t)"
  using reads_broker_panelPeekMessages [of sdk panel, unfolded reads_broker_def, rule_format, of s t]
    assms
  by (simp_all add: refreshView_def)

lemma afterDelete_frame:
  assumes "(successful r = []) = (successful r' = [])"
  shows "broker (afterDelete sdk queueName n r s) = broker (afterDelete sdk queueName n' r' s)"
    and "calls (afterDelete sdk queueName n r s) = calls (afterDelete sdk queueName n' r' s)"
proof -
  have nb: "broker (notify x s) = broker (notify y s)" "calls (notify x s) = calls (notify y s)"
    for x y
    by (simp_all add: notify_def)
  show "broker (afterDelete sdk queueName n r s) = broker (afterDelete sdk queueName n' r' s)"
    using assms reads_broker_refreshView(1) [OF nb]
    by (cases "currentPanel s") (simp_all add: afterDelete_def nb)
  show "calls (afterDelete sdk queueName n r s) = calls (afterDelete sdk queueName n' r' s)"
    using assms reads_broker_refreshView(2) [OF nb]
    by (cases "currentPanel s") (simp_all add: afterDelete_def nb)
qed

lemma batchLoop_cong_successful:
  assumes "\<And>m. step (g m) = step m"
    and "length (successful results) = length (successful results')"
  shows "length (successful (fst (batchLoop step (map g msgs) results s))) =
         length (successful (fst (batchLoop step msgs results' s)))"
  using assms(2)
proof (induction msgs arbitrary: results results' s)
  case Nil
  then show ?case by simp
next
  case (Cons m ms)
  obtain r s' where st: "step m s = (r, s')" by (cases "step m s")
  have "length (successful (record_result (g m) r results)) =
        length (successful (record_result m r results'))"
    using Cons.prems by (cases r) (simp_all add: record_result_def)
  from Cons.IH [OF this, of s'] show ?case
    using st by (simp add: assms(1))
qed

lemma deleteOne_scan:
  assumes "sourceConnectionString msg = Some scs" "scs \<noteq> []"
  shows "deleteOne sdk queueName msg = deleteMessageFromQueue sdk queueName scs (sequenceNumber msg)"
  using assms by (simp add: deleteOne_def)

lemma deleteOne_missing:
  assumes "\<not> truthy (sourceConnectionString msg)"
  shows "deleteOne sdk queueName msg s = (Inl (JsError ''Connection string missing''), s)"
  using assms by (cases "sourceConnectionString msg") (simp_all add: deleteOne_def throw_io_def)

lemma openReceiver_opens:
  "emits (openReceiver sdk queueName cs)
     (\<lambda>r seg. opens_receiver queueName cs seg \<and> list_all (on_receiver queueName cs) seg \<and>
        (\<forall>x. r = Inr x \<longrightarrow> length seg = 2))"
  by (auto simp: emits_def openReceiver_def bind_io_def sdk_call_def
           split: prod.splits sum.splits)

lemma opens_receiver_append:
  assumes "opens_receiver queueName cs seg" "length seg = 2"
  shows "opens_receiver queueName cs (seg @ seg')"
  using assms by (induction queueName cs seg rule: opens_receiver.induct) simp_all

lemma delete_opens:
  "emits (deleteMessageFromQueue sdk queueName cs sn)
     (\<lambda>r seg. opens_receiver queueName cs seg \<and> list_all (on_receiver queueName cs) seg)"
  unfolding deleteMessageFromQueue_def
proof (rule emits_bind [OF openReceiver_opens,
         where R = "\<lambda>x r seg. list_all (on_receiver queueName cs) seg"])
  show "emits (finally_io (scanAndCheck sdk queueName cs sn)
                (closeReceiverAndClient sdk queueName cs))
          (\<lambda>r seg. list_all (on_receiver queueName cs) seg)" for x :: unit
    unfolding closeReceiverAndClient_def scanAndCheck_def
    by (intro all_bind all_finally emits_sdk_call scanAttempts_events)
       (auto intro: emits_return emits_throw)
qed (auto intro: opens_receiver_append)


text \<open>When a bulk operation gets as far as an outcome.\<close>

lemma move_outcome_exists:
  "(fst (moveMessageToQueue sdk messageData targetQueue s) \<noteq> None) =
     truthy (getConnectionString s (connectionId targetQueue))"
  by (cases "getConnectionString s (connectionId targetQueue)")
     (simp_all add: moveMessageToQueue_def split: prod.splits)

lemma delete_outcome_exists:
  "(\<exists>r. fst (deleteMessages sdk messageData s) = Inr (Some r)) =
     (\<exists>firstMessage rest sq. toArray messageData = firstMessage # rest \<and>
        sourceQueue firstMessage = Some sq \<and> truthy (sourceConnectionString firstMessage))"
proof
  assume "\<exists>r. fst (deleteMessages sdk messageData s) = Inr (Some r)"
  then show "\<exists>firstMessage rest sq. toArray messageData = firstMessage # rest \<and>
        sourceQueue firstMessage = Some sq \<and> truthy (sourceConnectionString firstMessage)"
    by (auto simp: deleteMessages_def split: list.splits option.splits if_splits)
next
  assume "\<exists>firstMessage rest sq. toArray messageData = firstMessage # rest \<and>
        sourceQueue firstMessage = Some sq \<and> truthy (sourceConnectionString firstMessage)"
  then obtain firstMessage rest sq where
    "toArray messageData = firstMessage # rest" "sourceQueue firstMessage = Some sq"
    "truthy (sourceConnectionString firstMessage)"
    by blast
  from deleteMessages_run [OF this, of sdk s]
  show "\<exists>r. fst (deleteMessages sdk messageData s) = Inr (Some r)"
    by simp
qed

section \<open>The two stores\<close>

lemma storeSecrets_last:
  "storeSecrets (conns @ [c]) m (secretKey (conn_id c)) = Some (connectionString c)"
  by (simp add: storeSecrets_def)

lemma stored_saveConnections:
  "storedConnections (saveConnections s) = map toStored (connections s)"
  by (simp add: storedConnections_def saveConnections_def)

lemma stored_notify: "storedConnections (notify n s) = storedConnections s"
  by (simp add: storedConnections_def notify_def)

lemma applyOp_clean:
  assumes "\<forall>c \<in> set (storedConnections s). connectionString c = []"
  shows "\<forall>c \<in> set (storedConnections (applyOp trim opn s)). connectionString c = []"
proof (cases opn)
  case (AddConnection inp)
  then show ?thesis
    using assms
    by (auto simp: addConnection_def Let_def stored_notify stored_saveConnections toStored_def)
next
  case (DeleteConnection item confirm)
  then show ?thesis
    using assms
    by (auto simp: deleteConnection_def stored_notify stored_saveConnections toStored_def)
next
  case Restart
  then show ?thesis
    using assms by (simp add: loadConnections_def storedConnections_def)
qed

lemma runOps_clean:
  assumes "\<forall>c \<in> set (storedConnections s). connectionString c = []"
  shows "\<forall>c \<in> set (storedConnections (runOps trim ops s)). connectionString c = []"
  using assms
proof (induction ops arbitrary: s)
  case Nil
  then show ?case by (simp add: runOps_def)
next
  case (Cons opn ops)
  have "runOps trim (opn # ops) s = runOps trim ops (applyOp trim opn s)"
    by (simp add: runOps_def)
  then show ?case
    using Cons.IH [OF applyOp_clean [OF Cons.prems]] by simp
qed

lemma fresh_clean: "storedConnections (freshState b) = []"
  by (simp add: freshState_def loadConnections_def storedConnections_def)

lemma sendAll_events:
  "emits (sendAll sdk queueName cs msgs) (\<lambda>r seg. list_all (on_sender queueName cs) seg)"
  by (induction msgs) (auto intro!: all_bind send_events emits_return)

lemma processMessageMove_no_delete:
  "\<exists>seg. calls (processMessageMove sdk target messageData s) = calls s @ seg \<and>
         \<not> list_ex is_delete_event seg"
proof -
  have nd: "\<not> list_ex is_delete_event seg" if "list_all (on_sender q c) seg" for seg q c
    using that by (induction seg) (auto dest: on_sender_not_delete)
  have cn: "calls (notify n t) = calls t" for n and t :: "'a extension_state"
    by (simp add: notify_def)
  show ?thesis
  proof (cases "truthy (getConnectionString s (connectionId target))")
    case False
    then show ?thesis
      by (cases "getConnectionString s (connectionId target)")
         (simp_all add: processMessageMove_def cn)
  next
    case True
    then obtain c where c: "getConnectionString s (connectionId target) = Some c" "c \<noteq> []"
      by (cases "getConnectionString s (connectionId target)") simp_all
    obtain r s' where run: "sendAll sdk (queue_name target) c (toArray messageData) s = (r, s')"
      by (cases "sendAll sdk (queue_name target) c (toArray messageData) s")
    then obtain seg where seg: "calls s' = calls s @ seg"
        "list_all (on_sender (queue_name target) c) seg"
      using emitsD [OF sendAll_events] by blast
    have "calls (processMessageMove sdk target messageData s) = calls s'"
      using c run by (cases r) (simp_all add: processMessageMove_def cn)
    then show ?thesis
      using seg nd by auto
  qed
qed

text \<open>
  The list reloaded by a restart holds blanked records, and \<^verbatim>\<open>saveConnections\<close> stores
  every in-memory string: the next save after a restart overwrites the secrets of the
  reloaded connections with the empty string.
\<close>

lemma restart_then_save_blanks_secret:
  "secrets (runOps ascii_trim [AddConnection demoInput] (freshState emptyBroker)) (secretKey ''17-x'')
     = Some ''Endpoint=sb://a''
   \<and> secrets (runOps ascii_trim [AddConnection demoInput, Restart,
                      AddConnection (demoInput\<lparr>generated_id := ''18-y'', name_input := Some ''test''\<rparr>)]
                (freshState emptyBroker)) (secretKey ''17-x'')
     = Some []"
  by (simp add: demoInput_def runOps_def addConnection_def loadConnections_def freshState_def
        saveConnections_def notify_def storedConnections_def storeSecrets_def toStored_def
        secretKey_def ascii_trim_def is_space_def Let_def)

text \<open>The move command sends first and then works on the source queue.\<close>

lemma moveOne_sends_then_scans:
  assumes "moveOne sdk targetQueue cs msg s = (r, s')"
  shows "\<exists>seg1 seg2. calls s' = calls s @ seg1 @ seg2 \<and>
           list_all (on_sender (queue_name targetQueue) cs) seg1 \<and>
           (case sourceQueue msg of
              None \<Rightarrow> seg2 = []
            | Some sq \<Rightarrow>
                (case sourceConnectionString msg of
                   None \<Rightarrow> seg2 = []
                 | Some scs \<Rightarrow> list_all (on_receiver (queue_name sq) scs) seg2))"
proof -
  let ?after = "\<lambda>r seg. case sourceQueue msg of
              None \<Rightarrow> seg = []
            | Some sq \<Rightarrow>
                (case sourceConnectionString msg of
                   None \<Rightarrow> seg = []
                 | Some scs \<Rightarrow> list_all (on_receiver (queue_name sq) scs) seg)"
  have del: "emits (case sourceQueue msg of
         None \<Rightarrow> return_io ()
       | Some sq \<Rightarrow>
           (case sourceConnectionString msg of
              None \<Rightarrow> return_io ()
            | Some scs \<Rightarrow>
                if scs = [] then return_io ()
                else deleteMessageFromQueue sdk (queue_name sq) scs (sequenceNumber msg))) ?after"
    by (auto split: option.splits intro: emits_return delete_events)
  have "emits (moveOne sdk targetQueue cs msg)
          (\<lambda>r seg. \<exists>seg1 seg2. seg = seg1 @ seg2 \<and>
             list_all (on_sender (queue_name targetQueue) cs) seg1 \<and> ?after r seg2)"
    unfolding moveOne_def
  proof (rule emits_bind [OF send_events, where R = "\<lambda>_. ?after"])
    show "emits (case sourceQueue msg of
         None \<Rightarrow> return_io ()
       | Some sq \<Rightarrow>
           (case sourceConnectionString msg of
              None \<Rightarrow> return_io ()
            | Some scs \<Rightarrow>
                if scs = [] then return_io ()
                else deleteMessageFromQueue sdk (queue_name sq) scs (sequenceNumber msg))) ?after"
      for x :: unit
      by (rule del)
  next
    fix e seg
    assume "list_all (on_sender (queue_name targetQueue) cs) seg"
    then have "seg = seg @ [] \<and> list_all (on_sender (queue_name targetQueue) cs) seg \<and>
               ?after (Inl e) []"
      by (simp split: option.splits)
    then show "\<exists>seg1 seg2. seg = seg1 @ seg2 \<and>
             list_all (on_sender (queue_name targetQueue) cs) seg1 \<and> ?after (Inl e) seg2"
      by blast
  next
    fix x :: unit and seg1 r seg2
    assume "list_all (on_sender (queue_name targetQueue) cs) seg1" "?after r seg2"
    then show "\<exists>sa sb. seg1 @ seg2 = sa @ sb \<and>
             list_all (on_sender (queue_name targetQueue) cs) sa \<and> ?after r sb"
      by blast
  qed
  from emitsD [OF this assms] show ?thesis by auto
qed

section \<open>The webview handler\<close>

text \<open>
  Every snapshot that the panel forwards with the move command or with the delete command
  carries both source fields, set to the queue and the connection string of the panel;
  and the handler forwards a command in these two cases only.
\<close>

lemma panel_attaches_provenance:
  "onDidReceiveMessage panel (MoveToQueue data) s =
      (Some (MoveMessageToQueueCommand (map (attachSource panel) (toArray data))), s)
   \<and> onDidReceiveMessage panel (DeleteMessages data) s =
      (Some (DeleteMessagesCommand (map (attachSource panel) (toArray data))), s)
   \<and> (\<forall>m \<in> set (map (attachSource panel) (toArray data)).
         sourceQueue m = Some (panel_queue panel) \<and>
         sourceConnectionString m = Some (panel_connectionString panel))"
  by (auto simp: attachSource_def)

lemma only_move_and_delete_forward:
  "(fst (onDidReceiveMessage panel msg s) \<noteq> None) =
     (\<exists>data. msg = MoveToQueue data \<or> msg = DeleteMessages data)"
  by (cases msg) simp_all

lemma only_startDrag_stores:
  "(pendingDragMessage (snd (onDidReceiveMessage panel msg s)) \<noteq> pendingDragMessage s)
     \<longrightarrow> (\<exists>data. msg = StartDrag data)"
  by (cases msg) simp_all

section \<open>Evaluation of concrete runs\<close>

lemmas eval_defs = mock_sdk_def queued_def snapshot_def orders_def archive_def ordersPanel_def
  mock_state_def bind_io_def return_io_def throw_io_def finally_io_def sdk_call_def notify_def
  deleteMessageFromQueue_def openReceiver_def closeReceiverAndClient_def scanAndCheck_def
  notFound_def sendMessageToQueue_def closeSenderAndClient_def toServiceBusMessage_def
  maxAttempts_def secretKey_def getConnectionString_def attachSource_def

lemmas batch_defs = demoBatch_def demoState_def moveMessageToQueue_def deleteMessages_def
  moveOne_def deleteOne_def moveStateBefore_def deleteStateBefore_def emptyOutcome_def
  record_result_def moveSummary_def deleteSummary_def picky_sdk_def lostMessage_def
  afterDelete_def refreshView_def panelPeekMessages_def

section \<open>The connection stores\<close>

text \<open>
  \<^bold>\<open>C1.\<close> From a fresh installation, after any sequence of \<^verbatim>\<open>addConnection\<close> and
  \<^verbatim>\<open>deleteConnection\<close> operations (and restarts of the extension between them), every
  connection record in the persisted metadata has an empty \<^verbatim>\<open>connectionString\<close>. An
  \<^verbatim>\<open>addConnection\<close> whose two inputs are accepted writes the secret, as
  \<^verbatim>\<open>String.prototype.trim\<close> returns it, to the secret store under \<^verbatim>\<open>connection.<id>\<close>
  and rewrites the metadata from the in-memory list, the new record last, every string
  blanked. Both hold for every function \<open>trim\<close>.
\<close>

theorem secret_only_in_secret_store:
  "(\<forall>c \<in> set (storedConnections (runOps trim ops (freshState b))). connectionString c = [])
   \<and>
   (name_input inp = Some nm \<and> nm \<noteq> [] \<and> connectionString_input inp = Some secret \<and> secret \<noteq> []
      \<longrightarrow>
      secrets (addConnection trim inp s) (secretKey (generated_id inp)) = Some (trim secret) \<and>
      storedConnections (addConnection trim inp s) =
        map toStored (connections s) @
          [\<lparr>conn_id = generated_id inp, conn_name = trim nm, connectionString = [],
            createdAt = now inp\<rparr>])"
proof (intro conjI impI)
  show "\<forall>c \<in> set (storedConnections (runOps trim ops (freshState b))). connectionString c = []"
    by (rule runOps_clean) (simp add: fresh_clean)
next
  assume a: "name_input inp = Some nm \<and> nm \<noteq> [] \<and> connectionString_input inp = Some secret \<and>
             secret \<noteq> []"
  let ?c = "\<lparr>conn_id = generated_id inp, conn_name = trim nm, connectionString = trim secret,
             createdAt = now inp\<rparr>"
  have add: "addConnection trim inp s =
      notify (InformationMessage (''Connection '' @ quoted (trim nm) @ '' added successfully''))
        (saveConnections (s\<lparr>connections := connections s @ [?c]\<rparr>))"
    using a by (simp add: addConnection_def Let_def)
  have "secrets (addConnection trim inp s) (secretKey (generated_id inp)) =
      storeSecrets (connections s @ [?c]) (secrets s) (secretKey (conn_id ?c))"
    by (simp add: add notify_def saveConnections_def)
  then show "secrets (addConnection trim inp s) (secretKey (generated_id inp)) = Some (trim secret)"
    by (simp only: storeSecrets_last) simp
  show "storedConnections (addConnection trim inp s) =
        map toStored (connections s) @
          [\<lparr>conn_id = generated_id inp, conn_name = trim nm, connectionString = [],
            createdAt = now inp\<rparr>]"
    by (simp add: add stored_notify stored_saveConnections toStored_def)
qed

text \<open>
  A session of two additions, a restart and a deletion from a fresh installation: the
  metadata is not empty and its record has no secret, and the secret of the first
  addition is in the secret store under its key.
\<close>

theorem secret_only_in_secret_store_witness:
  "storedConnections (runOps ascii_trim demoOps (freshState emptyBroker)) \<noteq> []
   \<and> connectionString (hd (storedConnections (runOps ascii_trim demoOps (freshState emptyBroker)))) = []
   \<and> secrets (addConnection ascii_trim demoInput (freshState emptyBroker)) (secretKey ''17-x'')
       = Some ''Endpoint=sb://a''"
proof -
  have ne: "storedConnections (runOps ascii_trim demoOps (freshState emptyBroker)) \<noteq> []"
    by (simp add: demoOps_def demoInput_def runOps_def addConnection_def deleteConnection_def
          loadConnections_def stored_notify stored_saveConnections freshState_def
          saveConnections_def notify_def storedConnections_def Let_def)
  then have mem: "hd (storedConnections (runOps ascii_trim demoOps (freshState emptyBroker)))
                    \<in> set (storedConnections (runOps ascii_trim demoOps (freshState emptyBroker)))"
    by simp
  have hyp: "name_input demoInput = Some '' prod'' \<and> '' prod'' \<noteq> [] \<and>
             connectionString_input demoInput = Some ''Endpoint=sb://a '' \<and> ''Endpoint=sb://a '' \<noteq> []"
    by (simp add: demoInput_def)
  have tr: "ascii_trim ''Endpoint=sb://a '' = ''Endpoint=sb://a''"
    by (simp add: ascii_trim_def is_space_def)
  have gid: "generated_id demoInput = ''17-x''"
    by (simp add: demoInput_def)
  show ?thesis
    using secret_only_in_secret_store [of ascii_trim demoOps emptyBroker demoInput "'' prod''"
        "''Endpoint=sb://a ''" "freshState emptyBroker"] ne mem hyp tr gid
    by auto
qed

section \<open>Outcome accounting of the bulk operations\<close>

text \<open>
  \<^bold>\<open>C2.\<close> When a bulk move (and likewise a bulk delete) produces its outcome partition,
  and for every item of the batch the send to the destination succeeds and the deletion
  from the source queue, where one is made, succeeds, then the successful list is the
  whole batch (exactly \<open>N\<close> messages, in order) and the failed list is empty. Each item's
  calls are taken in the state the loop has reached before that item. A bulk move
  produces its partition exactly when the connection string of the target is found; a
  bulk delete exactly when the batch is not empty and its first message carries its
  source.
\<close>

theorem bulk_all_succeed:
  "(moveMessageToQueue sdk messageData targetQueue s = (Some results, s1) \<longrightarrow>
    getConnectionString s (connectionId targetQueue) = Some cs \<longrightarrow>
    (\<forall>k < length (toArray messageData).
       fst (sendMessageToQueue sdk (queue_name targetQueue) cs (toArray messageData ! k)
              (moveStateBefore sdk targetQueue cs (toArray messageData) k s)) = Inr () \<and>
       (\<forall>sq scs. sourceQueue (toArray messageData ! k) = Some sq \<longrightarrow>
          sourceConnectionString (toArray messageData ! k) = Some scs \<longrightarrow> scs \<noteq> [] \<longrightarrow>
          fst (deleteMessageFromQueue sdk (queue_name sq) scs
                 (sequenceNumber (toArray messageData ! k))
                 (snd (sendMessageToQueue sdk (queue_name targetQueue) cs (toArray messageData ! k)
                         (moveStateBefore sdk targetQueue cs (toArray messageData) k s)))) = Inr ())) \<longrightarrow>
    successful results = toArray messageData \<and> failed results = [])
   \<and>
   (deleteMessages sdk messageData' s = (Inr (Some results'), s2) \<longrightarrow>
    toArray messageData' = firstMessage # rest \<longrightarrow>
    sourceQueue firstMessage = Some sourceQ \<longrightarrow>
    (\<forall>k < length (toArray messageData').
       truthy (sourceConnectionString (toArray messageData' ! k)) \<and>
       fst (deleteMessageFromQueue sdk (queue_name sourceQ)
              (the (sourceConnectionString (toArray messageData' ! k)))
              (sequenceNumber (toArray messageData' ! k))
              (deleteStateBefore sdk (queue_name sourceQ) (toArray messageData') k s)) = Inr ()) \<longrightarrow>
    successful results' = toArray messageData' \<and> failed results' = [])
   \<and>
   (fst (moveMessageToQueue sdk messageData targetQueue s) \<noteq> None) =
     truthy (getConnectionString s (connectionId targetQueue))
   \<and>
   (\<exists>r. fst (deleteMessages sdk messageData' s) = Inr (Some r)) =
     (\<exists>m ms q. toArray messageData' = m # ms \<and> sourceQueue m = Some q \<and>
        truthy (sourceConnectionString m))"
proof (intro conjI impI)
  let ?msgs = "toArray messageData"
  let ?step = "moveOne sdk targetQueue cs"
  assume run: "moveMessageToQueue sdk messageData targetQueue s = (Some results, s1)"
    and cs: "getConnectionString s (connectionId targetQueue) = Some cs"
    and ok: "\<forall>k < length ?msgs.
       fst (sendMessageToQueue sdk (queue_name targetQueue) cs (?msgs ! k)
              (moveStateBefore sdk targetQueue cs ?msgs k s)) = Inr () \<and>
       (\<forall>sq scs. sourceQueue (?msgs ! k) = Some sq \<longrightarrow>
          sourceConnectionString (?msgs ! k) = Some scs \<longrightarrow> scs \<noteq> [] \<longrightarrow>
          fst (deleteMessageFromQueue sdk (queue_name sq) scs (sequenceNumber (?msgs ! k))
                 (snd (sendMessageToQueue sdk (queue_name targetQueue) cs (?msgs ! k)
                         (moveStateBefore sdk targetQueue cs ?msgs k s)))) = Inr ())"
  have "\<forall>k < length ?msgs. fst (?step (?msgs ! k) (stateBefore ?step ?msgs k s)) = Inr ()"
  proof (intro allI impI)
    fix k assume k: "k < length ?msgs"
    let ?sk = "stateBefore ?step ?msgs k s"
    obtain r s' where snd: "sendMessageToQueue sdk (queue_name targetQueue) cs (?msgs ! k) ?sk = (r, s')"
      by (cases "sendMessageToQueue sdk (queue_name targetQueue) cs (?msgs ! k) ?sk")
    have "r = Inr ()"
      using ok k snd by (auto simp: moveStateBefore_stateBefore)
    moreover have "fst (deleteMessageFromQueue sdk (queue_name sq) scs (sequenceNumber (?msgs ! k)) s')
                     = Inr ()"
      if "sourceQueue (?msgs ! k) = Some sq" "sourceConnectionString (?msgs ! k) = Some scs"
         "scs \<noteq> []" for sq scs
      using ok k snd that by (auto simp: moveStateBefore_stateBefore)
    ultimately show "fst (?step (?msgs ! k) ?sk) = Inr ()"
      using snd by (intro moveOne_ok [where s' = s']) simp_all
  qed
  then have "fst (batchLoop ?step ?msgs emptyOutcome s) = \<lparr>successful = ?msgs, failed = []\<rparr>"
    by (rule batchLoop_all_ok)
  then have r: "results = \<lparr>successful = ?msgs, failed = []\<rparr>"
    using moveMessageToQueue_outcome(1) [OF run cs] by simp
  show "successful results = ?msgs" using r by simp
  show "failed results = []" using r by simp
next
  let ?msgs = "toArray messageData'"
  assume run: "deleteMessages sdk messageData' s = (Inr (Some results'), s2)"
    and first: "?msgs = firstMessage # rest"
    and sq: "sourceQueue firstMessage = Some sourceQ"
    and ok: "\<forall>k < length ?msgs.
       truthy (sourceConnectionString (?msgs ! k)) \<and>
       fst (deleteMessageFromQueue sdk (queue_name sourceQ)
              (the (sourceConnectionString (?msgs ! k))) (sequenceNumber (?msgs ! k))
              (deleteStateBefore sdk (queue_name sourceQ) ?msgs k s)) = Inr ()"
  have "\<forall>k < length ?msgs.
          fst (deleteOne sdk (queue_name sourceQ) (?msgs ! k)
                 (stateBefore (deleteOne sdk (queue_name sourceQ)) ?msgs k s)) = Inr ()"
  proof (intro allI impI)
    fix k assume k: "k < length ?msgs"
    then obtain scs where "sourceConnectionString (?msgs ! k) = Some scs" "scs \<noteq> []"
      using ok by (cases "sourceConnectionString (?msgs ! k)") auto
    then show "fst (deleteOne sdk (queue_name sourceQ) (?msgs ! k)
                 (stateBefore (deleteOne sdk (queue_name sourceQ)) ?msgs k s)) = Inr ()"
      using ok k by (intro deleteOne_ok [where scs = scs])
                    (auto simp: deleteStateBefore_stateBefore)
  qed
  then have "fst (batchLoop (deleteOne sdk (queue_name sourceQ)) ?msgs emptyOutcome s) =
      \<lparr>successful = ?msgs, failed = []\<rparr>"
    by (rule batchLoop_all_ok)
  then have r: "results' = \<lparr>successful = ?msgs, failed = []\<rparr>"
    using deleteMessages_outcome(1) [OF run first sq] by simp
  show "successful results' = ?msgs" using r by simp
  show "failed results' = []" using r by simp
next
  show "(fst (moveMessageToQueue sdk messageData targetQueue s) \<noteq> None) =
     truthy (getConnectionString s (connectionId targetQueue))"
    by (rule move_outcome_exists)
next
  show "(\<exists>r. fst (deleteMessages sdk messageData' s) = Inr (Some r)) =
     (\<exists>m ms q. toArray messageData' = m # ms \<and> sourceQueue m = Some q \<and>
        truthy (sourceConnectionString m))"
    by (rule delete_outcome_exists)
qed

text \<open>
  A batch of two messages of the queue \<^verbatim>\<open>orders\<close>, moved to \<^verbatim>\<open>archive\<close> and, on a
  second run, deleted, on the broker where every call succeeds.
\<close>

theorem bulk_all_succeed_witness:
  "successful (the (fst (moveMessageToQueue mock_sdk (Many demoBatch) archive demoState))) = demoBatch
   \<and> failed (the (fst (moveMessageToQueue mock_sdk (Many demoBatch) archive demoState))) = []
   \<and> successful (the (projr (fst (deleteMessages mock_sdk (Many demoBatch) demoState)))) = demoBatch
   \<and> failed (the (projr (fst (deleteMessages mock_sdk (Many demoBatch) demoState)))) = []"
proof -
  let ?cs = "''Endpoint=sb://a''"
  let ?r = "the (fst (moveMessageToQueue mock_sdk (Many demoBatch) archive demoState))"
  let ?r' = "the (projr (fst (deleteMessages mock_sdk (Many demoBatch) demoState)))"
  have run: "moveMessageToQueue mock_sdk (Many demoBatch) archive demoState =
      (Some ?r, snd (moveMessageToQueue mock_sdk (Many demoBatch) archive demoState))"
    by (simp add: prod_eq_iff batch_defs eval_defs scanAttempts.simps)
  have cs: "getConnectionString demoState (connectionId archive) = Some ?cs"
    by (simp add: batch_defs eval_defs)
  have ok: "\<forall>k < length (toArray (Many demoBatch)).
       fst (sendMessageToQueue mock_sdk (queue_name archive) ?cs (toArray (Many demoBatch) ! k)
              (moveStateBefore mock_sdk archive ?cs (toArray (Many demoBatch)) k demoState)) = Inr () \<and>
       (\<forall>sq scs. sourceQueue (toArray (Many demoBatch) ! k) = Some sq \<longrightarrow>
          sourceConnectionString (toArray (Many demoBatch) ! k) = Some scs \<longrightarrow> scs \<noteq> [] \<longrightarrow>
          fst (deleteMessageFromQueue mock_sdk (queue_name sq) scs
                 (sequenceNumber (toArray (Many demoBatch) ! k))
                 (snd (sendMessageToQueue mock_sdk (queue_name archive) ?cs (toArray (Many demoBatch) ! k)
                         (moveStateBefore mock_sdk archive ?cs (toArray (Many demoBatch)) k demoState))))
            = Inr ())"
    by (simp add: All_less_Suc batch_defs eval_defs scanAttempts.simps)
  have run': "deleteMessages mock_sdk (Many demoBatch) demoState =
      (Inr (Some ?r'), snd (deleteMessages mock_sdk (Many demoBatch) demoState))"
    by (simp add: prod_eq_iff batch_defs eval_defs scanAttempts.simps)
  have first: "toArray (Many demoBatch) = attachSource ordersPanel (snapshot ''3'')
                 # [attachSource ordersPanel (snapshot ''7'')]"
    by (simp add: demoBatch_def)
  have sq: "sourceQueue (attachSource ordersPanel (snapshot ''3'')) = Some orders"
    by (simp add: eval_defs)
  have ok': "\<forall>k < length (toArray (Many demoBatch)).
       truthy (sourceConnectionString (toArray (Many demoBatch) ! k)) \<and>
       fst (deleteMessageFromQueue mock_sdk (queue_name orders)
              (the (sourceConnectionString (toArray (Many demoBatch) ! k)))
              (sequenceNumber (toArray (Many demoBatch) ! k))
              (deleteStateBefore mock_sdk (queue_name orders) (toArray (Many demoBatch)) k demoState))
         = Inr ()"
    by (simp add: All_less_Suc batch_defs eval_defs scanAttempts.simps)
  show ?thesis
    using bulk_all_succeed [of mock_sdk "Many demoBatch" archive demoState ?r
        "snd (moveMessageToQueue mock_sdk (Many demoBatch) archive demoState)" ?cs
        "Many demoBatch" ?r' "snd (deleteMessages mock_sdk (Many demoBatch) demoState)"
        "attachSource ordersPanel (snapshot ''3'')" "[attachSource ordersPanel (snapshot ''7'')]"
        orders]
      run cs ok run' first sq ok'
    by simp
qed





text \<open>
  \<^bold>\<open>C8.\<close> The outcome lists of a bulk move and of a bulk delete are subsequences of the
  batch, in input order; together they hold every item of the batch once; and the items
  are processed one after the other: item \<open>k + 1\<close> starts in the state item \<open>k\<close> ended in.
\<close>

theorem bulk_order_preserved:
  "(moveMessageToQueue sdk messageData targetQueue s = (Some results, s1) \<longrightarrow>
    getConnectionString s (connectionId targetQueue) = Some cs \<longrightarrow>
    subseq (successful results) (toArray messageData) \<and>
    subseq (map fst (failed results)) (toArray messageData) \<and>
    mset (successful results) + mset (map fst (failed results)) = mset (toArray messageData) \<and>
    (\<forall>k < length (toArray messageData).
       moveStateBefore sdk targetQueue cs (toArray messageData) (Suc k) s =
         snd (moveOne sdk targetQueue cs (toArray messageData ! k)
                (moveStateBefore sdk targetQueue cs (toArray messageData) k s))))
   \<and>
   (deleteMessages sdk messageData' s = (Inr (Some results'), s2) \<longrightarrow>
    toArray messageData' = firstMessage # rest \<longrightarrow>
    sourceQueue firstMessage = Some sourceQ \<longrightarrow>
    subseq (successful results') (toArray messageData') \<and>
    subseq (map fst (failed results')) (toArray messageData') \<and>
    mset (successful results') + mset (map fst (failed results')) = mset (toArray messageData') \<and>
    (\<forall>k < length (toArray messageData').
       deleteStateBefore sdk (queue_name sourceQ) (toArray messageData') (Suc k) s =
         snd (deleteOne sdk (queue_name sourceQ) (toArray messageData' ! k)
                (deleteStateBefore sdk (queue_name sourceQ) (toArray messageData') k s))))"
proof (intro conjI impI allI)
  let ?msgs = "toArray messageData"
  assume run: "moveMessageToQueue sdk messageData targetQueue s = (Some results, s1)"
    and cs: "getConnectionString s (connectionId targetQueue) = Some cs"
  obtain ss fs where p:
    "successful results = successful emptyOutcome @ ss" "failed results = failed emptyOutcome @ fs"
    "subseq ss ?msgs" "subseq (map fst fs) ?msgs" "mset ss + mset (map fst fs) = mset ?msgs"
    using batchLoop_partition [of "moveOne sdk targetQueue cs" ?msgs emptyOutcome s]
      moveMessageToQueue_outcome(1) [OF run cs] by auto
  show "subseq (successful results) ?msgs" using p by (simp add: emptyOutcome_def)
  show "subseq (map fst (failed results)) ?msgs" using p by (simp add: emptyOutcome_def)
  show "mset (successful results) + mset (map fst (failed results)) = mset ?msgs"
    using p by (simp add: emptyOutcome_def)
  fix k assume "k < length ?msgs"
  then show "moveStateBefore sdk targetQueue cs ?msgs (Suc k) s =
         snd (moveOne sdk targetQueue cs (?msgs ! k) (moveStateBefore sdk targetQueue cs ?msgs k s))"
    by (simp add: moveStateBefore_stateBefore stateBefore_Suc)
next
  let ?msgs = "toArray messageData'"
  assume run: "deleteMessages sdk messageData' s = (Inr (Some results'), s2)"
    and first: "?msgs = firstMessage # rest"
    and sq: "sourceQueue firstMessage = Some sourceQ"
  obtain ss fs where p:
    "successful results' = successful emptyOutcome @ ss" "failed results' = failed emptyOutcome @ fs"
    "subseq ss ?msgs" "subseq (map fst fs) ?msgs" "mset ss + mset (map fst fs) = mset ?msgs"
    using batchLoop_partition [of "deleteOne sdk (queue_name sourceQ)" ?msgs emptyOutcome s]
      deleteMessages_outcome(1) [OF run first sq] by auto
  show "subseq (successful results') ?msgs" using p by (simp add: emptyOutcome_def)
  show "subseq (map fst (failed results')) ?msgs" using p by (simp add: emptyOutcome_def)
  show "mset (successful results') + mset (map fst (failed results')) = mset ?msgs"
    using p by (simp add: emptyOutcome_def)
  fix k assume "k < length ?msgs"
  then show "deleteStateBefore sdk (queue_name sourceQ) ?msgs (Suc k) s =
         snd (deleteOne sdk (queue_name sourceQ) (?msgs ! k)
                (deleteStateBefore sdk (queue_name sourceQ) ?msgs k s))"
    by (simp add: deleteStateBefore_stateBefore stateBefore_Suc)
qed

text \<open>
  A move in which the second send fails, and a delete of the same batch.
\<close>

theorem bulk_order_preserved_witness:
  "subseq (successful (the (fst (moveMessageToQueue picky_sdk (Many demoBatch) archive demoState))))
     demoBatch
   \<and> subseq (map fst (failed (the (fst (moveMessageToQueue picky_sdk (Many demoBatch) archive
                                          demoState))))) demoBatch
   \<and> mset (successful (the (fst (moveMessageToQueue picky_sdk (Many demoBatch) archive demoState))))
       + mset (map fst (failed (the (fst (moveMessageToQueue picky_sdk (Many demoBatch) archive
                                            demoState)))))
       = mset demoBatch
   \<and> subseq (successful (the (projr (fst (deleteMessages picky_sdk (Many demoBatch) demoState)))))
       demoBatch
   \<and> subseq (map fst (failed (the (projr (fst (deleteMessages picky_sdk (Many demoBatch) demoState))))))
       demoBatch"
proof -
  let ?cs = "''Endpoint=sb://a''"
  let ?md = "Many demoBatch"
  let ?r = "the (fst (moveMessageToQueue picky_sdk ?md archive demoState))"
  let ?r' = "the (projr (fst (deleteMessages picky_sdk ?md demoState)))"
  have run: "moveMessageToQueue picky_sdk ?md archive demoState =
      (Some ?r, snd (moveMessageToQueue picky_sdk ?md archive demoState))"
    by (simp add: prod_eq_iff batch_defs eval_defs scanAttempts.simps)
  have cs: "getConnectionString demoState (connectionId archive) = Some ?cs"
    by (simp add: batch_defs eval_defs)
  have run': "deleteMessages picky_sdk ?md demoState =
      (Inr (Some ?r'), snd (deleteMessages picky_sdk ?md demoState))"
    by (simp add: prod_eq_iff batch_defs eval_defs scanAttempts.simps)
  have first: "toArray ?md = attachSource ordersPanel (snapshot ''3'')
                 # [attachSource ordersPanel (snapshot ''7'')]"
    by (simp add: demoBatch_def)
  have sq: "sourceQueue (attachSource ordersPanel (snapshot ''3'')) = Some orders"
    by (simp add: eval_defs)
  have "toArray ?md = demoBatch" by simp
  then show ?thesis
    using bulk_order_preserved [of picky_sdk ?md archive demoState ?r
        "snd (moveMessageToQueue picky_sdk ?md archive demoState)" ?cs
        ?md ?r' "snd (deleteMessages picky_sdk ?md demoState)"
        "attachSource ordersPanel (snapshot ''3'')" "[attachSource ordersPanel (snapshot ''7'')]"
        orders]
      run cs run' first sq
    by (simp only: simp_thms)
qed

text \<open>
  \<^bold>\<open>C10.\<close> For a non-empty batch, bulk delete looks at the source of the first message
  only. When the first message has no source queue or no (non-empty) source connection
  string, the operation returns without an outcome and leaves the state as it was except
  for one error notification: no call to the broker is made. Otherwise the operation
  returns an outcome, and its loop takes the items in order, item \<open>k\<close> from the state
  \<^verbatim>\<open>deleteStateBefore ... k\<close> to the state \<^verbatim>\<open>deleteStateBefore ... (k + 1)\<close>, as follows.
  For an item with a connection string of its own, the step is the run of
  \<^verbatim>\<open>deleteMessageFromQueue\<close> on the queue named by the \<^emph>\<open>first\<close> message, with the item's
  connection string and sequence number: its calls start with a new client and (unless
  that throws) a receiver on that queue, every one of them is a call on that queue and
  connection, and the item is in the successful list when the run returns and in the
  failed list, with the message of the error, when it throws. An item without a
  connection string makes no call and is in the failed list with
  \<^verbatim>\<open>Connection string missing\<close>. After the loop come the summary notification and, when
  the panel is open and a message was deleted, the refresh of the panel, which peeks the
  panel's own queue. The calls and the broker at the end are the same whatever the
  \<^verbatim>\<open>sourceQueue\<close> fields of the items after the first are.
\<close>

theorem delete_first_provenance:
  assumes batch: "toArray messageData = firstMessage # rest"
  shows "(sourceQueue firstMessage = None \<or> \<not> truthy (sourceConnectionString firstMessage) \<longrightarrow>
            deleteMessages sdk messageData s =
              (Inr None,
               notify (ErrorMessage ''Cannot delete message: source queue information missing'') s))
         \<and>
         (sourceQueue firstMessage = Some sq \<and> truthy (sourceConnectionString firstMessage) \<longrightarrow>
            (\<exists>results.
               deleteMessages sdk messageData s =
                 (Inr (Some results),
                  afterDelete sdk (queue_name sq) (Suc (length rest)) results
                    (deleteStateBefore sdk (queue_name sq) (firstMessage # rest)
                       (Suc (length rest)) s)) \<and>
               (\<forall>k scs.
                  k \<le> length rest \<and>
                  sourceConnectionString ((firstMessage # rest) ! k) = Some scs \<and> scs \<noteq> [] \<longrightarrow>
                  deleteStateBefore sdk (queue_name sq) (firstMessage # rest) (Suc k) s =
                    snd (deleteMessageFromQueue sdk (queue_name sq) scs
                           (sequenceNumber ((firstMessage # rest) ! k))
                           (deleteStateBefore sdk (queue_name sq) (firstMessage # rest) k s)) \<and>
                  (\<exists>seg. calls (deleteStateBefore sdk (queue_name sq) (firstMessage # rest) (Suc k) s) =
                           calls (deleteStateBefore sdk (queue_name sq) (firstMessage # rest) k s) @ seg \<and>
                         opens_receiver (queue_name sq) scs seg \<and>
                         list_all (on_receiver (queue_name sq) scs) seg) \<and>
                  (case fst (deleteMessageFromQueue sdk (queue_name sq) scs
                               (sequenceNumber ((firstMessage # rest) ! k))
                               (deleteStateBefore sdk (queue_name sq) (firstMessage # rest) k s)) of
                     Inl e \<Rightarrow> ((firstMessage # rest) ! k, errorMessage e) \<in> set (failed results)
                   | Inr u \<Rightarrow> (firstMessage # rest) ! k \<in> set (successful results))) \<and>
               (\<forall>k. k \<le> length rest \<and>
                    \<not> truthy (sourceConnectionString ((firstMessage # rest) ! k)) \<longrightarrow>
                  deleteStateBefore sdk (queue_name sq) (firstMessage # rest) (Suc k) s =
                    deleteStateBefore sdk (queue_name sq) (firstMessage # rest) k s \<and>
                  ((firstMessage # rest) ! k, ''Connection string missing'') \<in> set (failed results))) \<and>
            calls (snd (deleteMessages sdk
                          (Many (firstMessage # map (\<lambda>m. m\<lparr>sourceQueue := f m\<rparr>) rest)) s))
              = calls (snd (deleteMessages sdk messageData s)) \<and>
            broker (snd (deleteMessages sdk
                           (Many (firstMessage # map (\<lambda>m. m\<lparr>sourceQueue := f m\<rparr>) rest)) s))
              = broker (snd (deleteMessages sdk messageData s)))"
proof (intro conjI impI)
  assume "sourceQueue firstMessage = None \<or> \<not> truthy (sourceConnectionString firstMessage)"
  then show "deleteMessages sdk messageData s =
      (Inr None, notify (ErrorMessage ''Cannot delete message: source queue information missing'') s)"
    using batch by (auto simp: deleteMessages_def split: option.splits)
next
  let ?qn = "queue_name sq"
  let ?step = "deleteOne sdk ?qn"
  let ?msgs = "firstMessage # rest"
  let ?g = "\<lambda>m. m\<lparr>sourceQueue := f m\<rparr>"
  let ?results = "fst (batchLoop ?step ?msgs emptyOutcome s)"
  let ?before = "\<lambda>k. deleteStateBefore sdk ?qn ?msgs k s"
  assume ok: "sourceQueue firstMessage = Some sq \<and> truthy (sourceConnectionString firstMessage)"
  have before: "?before k = stateBefore ?step ?msgs k s" for k
    by (rule deleteStateBefore_stateBefore)
  have r1: "deleteMessages sdk messageData s =
      (Inr (Some ?results),
       afterDelete sdk ?qn (Suc (length rest)) ?results (snd (batchLoop ?step ?msgs emptyOutcome s)))"
    using deleteMessages_run [OF batch, of sq sdk s] ok by simp
  have last: "snd (batchLoop ?step ?msgs emptyOutcome s) = ?before (Suc (length rest))"
    using stateBefore_length [of ?step ?msgs emptyOutcome s] by (simp only: before length_Cons)
  have item: "?before (Suc k) =
          snd (deleteMessageFromQueue sdk ?qn scs (sequenceNumber (?msgs ! k)) (?before k)) \<and>
        (\<exists>seg. calls (?before (Suc k)) = calls (?before k) @ seg \<and>
               opens_receiver ?qn scs seg \<and> list_all (on_receiver ?qn scs) seg) \<and>
        (case fst (deleteMessageFromQueue sdk ?qn scs (sequenceNumber (?msgs ! k)) (?before k)) of
           Inl e \<Rightarrow> (?msgs ! k, errorMessage e) \<in> set (failed ?results)
         | Inr u \<Rightarrow> ?msgs ! k \<in> set (successful ?results))"
    if h: "k \<le> length rest \<and> sourceConnectionString (?msgs ! k) = Some scs \<and> scs \<noteq> []"
    for k scs
  proof -
    let ?del = "deleteMessageFromQueue sdk ?qn scs (sequenceNumber (?msgs ! k))"
    have k: "k < length ?msgs" using h by simp
    have step: "?step (?msgs ! k) = ?del"
      using h by (intro deleteOne_scan) simp_all
    have suc: "?before (Suc k) = snd (?del (?before k))"
      using stateBefore_Suc [OF k, of ?step s] by (simp only: before step)
    obtain r s' where run: "?del (?before k) = (r, s')" by (cases "?del (?before k)")
    from emitsD [OF delete_opens run]
    have seg: "\<exists>seg. calls (?before (Suc k)) = calls (?before k) @ seg \<and>
               opens_receiver ?qn scs seg \<and> list_all (on_receiver ?qn scs) seg"
      by (simp only: suc run snd_conv)
    have res: "fst (?step (?msgs ! k) (stateBefore ?step ?msgs k s)) = r"
      using run by (simp only: step before [symmetric] fst_conv)
    have out: "case r of
           Inl e \<Rightarrow> (?msgs ! k, errorMessage e) \<in> set (failed ?results)
         | Inr u \<Rightarrow> ?msgs ! k \<in> set (successful ?results)"
    proof (cases r)
      case (Inl e)
      then show ?thesis
        using batchLoop_item_failed [of k ?msgs ?step s e] k res by simp
    next
      case (Inr u)
      then show ?thesis
        using batchLoop_item_successful [of k ?msgs ?step s u] k res by simp
    qed
    show ?thesis
      using suc seg out run by (simp only: fst_conv simp_thms)
  qed
  have missing: "?before (Suc k) = ?before k \<and>
        (?msgs ! k, ''Connection string missing'') \<in> set (failed ?results)"
    if h: "k \<le> length rest \<and> \<not> truthy (sourceConnectionString (?msgs ! k))" for k
  proof -
    have k: "k < length ?msgs" using h by simp
    have step: "?step (?msgs ! k) (stateBefore ?step ?msgs k s) =
        (Inl (JsError ''Connection string missing''), stateBefore ?step ?msgs k s)"
      using h by (intro deleteOne_missing) simp
    have "?before (Suc k) = ?before k"
      using stateBefore_Suc [OF k, of ?step s] by (simp only: before step snd_conv)
    moreover have "(?msgs ! k, errorMessage (JsError ''Connection string missing''))
                     \<in> set (failed ?results)"
      using batchLoop_item_failed [of k ?msgs ?step s "JsError ''Connection string missing''"] k step
      by simp
    ultimately show ?thesis by simp
  qed
  show "\<exists>results.
      deleteMessages sdk messageData s =
        (Inr (Some results),
         afterDelete sdk ?qn (Suc (length rest)) results (?before (Suc (length rest)))) \<and>
      (\<forall>k scs.
         k \<le> length rest \<and> sourceConnectionString (?msgs ! k) = Some scs \<and> scs \<noteq> [] \<longrightarrow>
         ?before (Suc k) =
           snd (deleteMessageFromQueue sdk ?qn scs (sequenceNumber (?msgs ! k)) (?before k)) \<and>
         (\<exists>seg. calls (?before (Suc k)) = calls (?before k) @ seg \<and>
                opens_receiver ?qn scs seg \<and> list_all (on_receiver ?qn scs) seg) \<and>
         (case fst (deleteMessageFromQueue sdk ?qn scs (sequenceNumber (?msgs ! k)) (?before k)) of
            Inl e \<Rightarrow> (?msgs ! k, errorMessage e) \<in> set (failed results)
          | Inr u \<Rightarrow> ?msgs ! k \<in> set (successful results))) \<and>
      (\<forall>k. k \<le> length rest \<and> \<not> truthy (sourceConnectionString (?msgs ! k)) \<longrightarrow>
         ?before (Suc k) = ?before k \<and>
         (?msgs ! k, ''Connection string missing'') \<in> set (failed results))"
  proof (intro exI [of _ ?results] conjI allI impI)
    show "deleteMessages sdk messageData s =
        (Inr (Some ?results),
         afterDelete sdk ?qn (Suc (length rest)) ?results (?before (Suc (length rest))))"
      by (simp only: r1 last)
  qed (use item missing in blast)+
  let ?results' = "fst (batchLoop ?step (firstMessage # map ?g rest) emptyOutcome s)"
  have r2: "snd (deleteMessages sdk (Many (firstMessage # map ?g rest)) s) =
      afterDelete sdk ?qn (Suc (length (map ?g rest))) ?results'
        (snd (batchLoop ?step (firstMessage # map ?g rest) emptyOutcome s))"
    using deleteMessages_run [of "Many (firstMessage # map ?g rest)" firstMessage "map ?g rest" sq sdk s]
      ok by simp
  have same: "snd (batchLoop ?step (firstMessage # map ?g rest) emptyOutcome s) =
              snd (batchLoop ?step ?msgs emptyOutcome s)"
    using batchLoop_state_cong [of ?step ?g rest, OF deleteOne_ignores_sourceQueue]
    by (simp split: prod.splits)
  have len: "length (successful ?results') = length (successful ?results)"
    using batchLoop_cong_successful [of ?step ?g _ _ rest, OF deleteOne_ignores_sourceQueue]
    by (simp split: prod.splits)
  then have empty: "(successful ?results' = []) = (successful ?results = [])"
    by (simp only: length_0_conv [symmetric])
  show "calls (snd (deleteMessages sdk (Many (firstMessage # map ?g rest)) s))
          = calls (snd (deleteMessages sdk messageData s))"
    using afterDelete_frame(2) [OF empty] by (simp only: r1 r2 same snd_conv)
  show "broker (snd (deleteMessages sdk (Many (firstMessage # map ?g rest)) s))
          = broker (snd (deleteMessages sdk messageData s))"
    using afterDelete_frame(1) [OF empty] by (simp only: r1 r2 same snd_conv)
qed


text \<open>
  A batch whose first message has no source, and batches of two messages of \<^verbatim>\<open>orders\<close>
  whose second message claims to come from \<^verbatim>\<open>archive\<close>: its deletion opens a receiver on
  \<^verbatim>\<open>orders\<close>.
\<close>

theorem delete_first_provenance_witness:
  "deleteMessages mock_sdk (Many [snapshot ''3'', lostMessage]) demoState
     = (Inr None,
        notify (ErrorMessage ''Cannot delete message: source queue information missing'') demoState)
   \<and> (\<exists>seg. calls (deleteStateBefore mock_sdk (queue_name orders)
                      (attachSource ordersPanel (snapshot ''3'')
                       # [(attachSource ordersPanel (snapshot ''7''))\<lparr>sourceQueue := Some archive\<rparr>])
                      (Suc 1) demoState)
             = calls (deleteStateBefore mock_sdk (queue_name orders)
                        (attachSource ordersPanel (snapshot ''3'')
                         # [(attachSource ordersPanel (snapshot ''7''))\<lparr>sourceQueue := Some archive\<rparr>])
                        1 demoState) @ seg
            \<and> opens_receiver (queue_name orders) ''Endpoint=sb://a'' seg
            \<and> list_all (on_receiver (queue_name orders) ''Endpoint=sb://a'') seg)
   \<and> calls (snd (deleteMessages mock_sdk
                    (Many (attachSource ordersPanel (snapshot ''3'')
                           # map (\<lambda>m. m\<lparr>sourceQueue := Some archive\<rparr>)
                               [attachSource ordersPanel (snapshot ''7'')])) demoState))
       = calls (snd (deleteMessages mock_sdk (Many demoBatch) demoState))"
proof -
  let ?m3 = "attachSource ordersPanel (snapshot ''3'')"
  let ?m7 = "(attachSource ordersPanel (snapshot ''7''))\<lparr>sourceQueue := Some archive\<rparr>"
  have a: "toArray (Many [snapshot ''3'', lostMessage]) = snapshot ''3'' # [lostMessage]"
    by simp
  have b: "sourceQueue (snapshot ''3'') = None \<or> \<not> truthy (sourceConnectionString (snapshot ''3''))"
    by (simp add: snapshot_def)
  have c: "toArray (Many demoBatch) = ?m3 # [attachSource ordersPanel (snapshot ''7'')]"
    by (simp add: demoBatch_def)
  have d: "sourceQueue ?m3 = Some orders \<and> truthy (sourceConnectionString ?m3)"
    by (simp add: eval_defs)
  have e: "toArray (Many [?m3, ?m7]) = ?m3 # [?m7]"
    by simp
  have h: "1 \<le> length [?m7] \<and>
           sourceConnectionString ((?m3 # [?m7]) ! 1) = Some ''Endpoint=sb://a'' \<and>
           ''Endpoint=sb://a'' \<noteq> []"
    by (simp add: eval_defs)
  show ?thesis
    using delete_first_provenance [OF a, where sdk = mock_sdk and s = demoState] b
      delete_first_provenance [OF e, where sq = orders and sdk = mock_sdk and s = demoState] d h
      delete_first_provenance [OF c, where sq = orders and sdk = mock_sdk and s = demoState
                                 and f = "\<lambda>m. Some archive"]
    by blast
qed

section \<open>The scan\<close>

text \<open>
  \<^bold>\<open>C7.\<close> A run of the scan-based deletion makes at most five receive calls, each asking
  for 100 messages with a maximum wait of 5000 milliseconds, and makes no further receive
  call after a \<^verbatim>\<open>completeMessage\<close> call or after a receive that returned no message.
  (The batch in which the match is completed is still walked to its end.)
\<close>

theorem scan_budget:
  "\<exists>seg. calls (snd (deleteMessageFromQueue sdk queueName cs sn s)) = calls s @ seg \<and>
         length (receive_requests seg) \<le> 5 \<and>
         set (receive_requests seg) \<subseteq> {(100, 5000)} \<and>
         no_receive_after_stop seg"
proof -
  obtain r s' where run: "deleteMessageFromQueue sdk queueName cs sn s = (r, s')"
    by (cases "deleteMessageFromQueue sdk queueName cs sn s")
  have "emits (scanAttempts sdk queueName cs sn 0 False) (\<lambda>r seg. scan_bound 5 seg)"
    using scanAttempts_bound [of sdk queueName cs sn 0 False] by (simp add: maxAttempts_def)
  from delete_shape [OF this scan_bound_Nil]
  have "emits (deleteMessageFromQueue sdk queueName cs sn) (\<lambda>r seg. scan_bound 5 seg)"
    by (rule emits_weaken) (auto simp: scan_bound_framed)
  from emitsD [OF this run] show ?thesis
    using run by (auto simp: scan_bound_def)
qed

text \<open>
  A scan for a sequence number that is not in the queue uses all five attempts; a scan
  that finds its target in the first batch, and a scan of an empty queue, make one.
\<close>

theorem scan_budget_witness:
  "(\<exists>seg. calls (snd (deleteMessageFromQueue mock_sdk ''orders'' ''Endpoint=sb://a'' ''9'' demoState))
           = calls demoState @ seg \<and>
         length (receive_requests seg) \<le> 5 \<and>
         set (receive_requests seg) \<subseteq> {(100, 5000)} \<and>
         no_receive_after_stop seg)
   \<and> receive_requests
         (calls (snd (deleteMessageFromQueue mock_sdk ''orders'' ''Endpoint=sb://a'' ''9'' demoState)))
       = [(100, 5000), (100, 5000), (100, 5000), (100, 5000), (100, 5000)]
   \<and> receive_requests
         (calls (snd (deleteMessageFromQueue mock_sdk ''orders'' ''Endpoint=sb://a'' ''7'' demoState)))
       = [(100, 5000)]
   \<and> receive_requests
         (calls (snd (deleteMessageFromQueue mock_sdk ''orders'' ''Endpoint=sb://a'' ''7''
                        (mock_state []))))
       = [(100, 5000)]"
proof -
  have bound: "\<exists>seg. calls (snd (deleteMessageFromQueue mock_sdk ''orders'' ''Endpoint=sb://a'' ''9''
                                   demoState))
           = calls demoState @ seg \<and>
         length (receive_requests seg) \<le> 5 \<and>
         set (receive_requests seg) \<subseteq> {(100, 5000)} \<and>
         no_receive_after_stop seg"
    by (rule scan_budget)
  have runs: "receive_requests
         (calls (snd (deleteMessageFromQueue mock_sdk ''orders'' ''Endpoint=sb://a'' ''9'' demoState)))
       = [(100, 5000), (100, 5000), (100, 5000), (100, 5000), (100, 5000)]"
    "receive_requests
         (calls (snd (deleteMessageFromQueue mock_sdk ''orders'' ''Endpoint=sb://a'' ''7'' demoState)))
       = [(100, 5000)]"
    "receive_requests
         (calls (snd (deleteMessageFromQueue mock_sdk ''orders'' ''Endpoint=sb://a'' ''7''
                        (mock_state []))))
       = [(100, 5000)]"
    by (simp_all add: demoState_def eval_defs scanAttempts.simps)
  from bound runs show ?thesis by blast
qed




section \<open>Drag and drop, and the source of a snapshot\<close>

text \<open>
  \<^bold>\<open>C6.\<close> A message dragged from the panel of \<^verbatim>\<open>orders\<close> and dropped on \<^verbatim>\<open>archive\<close>: the
  only calls are those of the send, the message is still in the source queue, and the
  notification says that it was moved.
\<close>

theorem drag_drop_keeps_original:
  "calls (handleDrop mock_sdk no_decode no_parse (Some archive) emptyTransfer
            (snd (onDidReceiveMessage ordersPanel (StartDrag (Many [snapshot ''7'']))
                    (mock_state [queued ''7'']))))
     = [NewClient ''Endpoint=sb://a'' (Inr ()),
        CreateSender ''Endpoint=sb://a'' ''archive'' (Inr ()),
        SendMessages ''Endpoint=sb://a'' ''archive'' (toServiceBusMessage (snapshot ''7'')) (Inr ()),
        CloseSender ''Endpoint=sb://a'' ''archive'' (Inr ()),
        CloseClient ''Endpoint=sb://a'' (Inr ())]
   \<and> mb_queue (broker (handleDrop mock_sdk no_decode no_parse (Some archive) emptyTransfer
            (snd (onDidReceiveMessage ordersPanel (StartDrag (Many [snapshot ''7'']))
                    (mock_state [queued ''7''])))))
     = [queued ''7'']
   \<and> notifications (handleDrop mock_sdk no_decode no_parse (Some archive) emptyTransfer
            (snd (onDidReceiveMessage ordersPanel (StartDrag (Many [snapshot ''7'']))
                    (mock_state [queued ''7'']))))
     = [InformationMessage ''Message moved to archive'']"
  by (simp add: handleDrop_def processMessageMove_def emptyTransfer_def eval_defs)

text \<open>
  \<^bold>\<open>C9.\<close> The panel of \<^verbatim>\<open>orders\<close> gets the same snapshot twice, once with \<^verbatim>\<open>moveToQueue\<close> and
  once with \<^verbatim>\<open>startDrag\<close>. The move case forwards it with both source fields set; the drag
  case stores it as received, with neither, and the drop on \<^verbatim>\<open>archive\<close> relocates it all
  the same.
\<close>

theorem dragged_snapshot_without_provenance:
  "onDidReceiveMessage ordersPanel (MoveToQueue (Many [snapshot ''7''])) (mock_state [queued ''7''])
     = (Some (MoveMessageToQueueCommand
                [(snapshot ''7'')\<lparr>sourceQueue := Some orders,
                                  sourceConnectionString := Some ''Endpoint=sb://a''\<rparr>]),
        mock_state [queued ''7''])
   \<and> pendingDragMessage (snd (onDidReceiveMessage ordersPanel (StartDrag (Many [snapshot ''7'']))
                              (mock_state [queued ''7''])))
     = Some (Many [snapshot ''7''])
   \<and> sourceQueue (snapshot ''7'') = None
   \<and> sourceConnectionString (snapshot ''7'') = None
   \<and> SendMessages ''Endpoint=sb://a'' ''archive'' (toServiceBusMessage (snapshot ''7'')) (Inr ())
       \<in> set (calls (handleDrop mock_sdk no_decode no_parse (Some archive) emptyTransfer
            (snd (onDidReceiveMessage ordersPanel (StartDrag (Many [snapshot ''7'']))
                    (mock_state [queued ''7''])))))"
  by (simp add: handleDrop_def processMessageMove_def emptyTransfer_def eval_defs)

end
